theory Spec2Isabelle
  imports Complex_Main
begin

section \<open>Python values as the Whisper engine returns them\<close>

text \<open>
  The engine's result is a dynamically typed Python value: dictionaries, lists, strings and
  numbers, any of which may be missing or of an unexpected type. A dictionary is an
  association list read with \<open>map_of\<close>; its keys are strings.

  Two restrictions are made and kept throughout. A Python \<open>float\<close> is finite and is
  modelled by the real number it stands for: the values \<open>inf\<close> and \<open>nan\<close> do not occur. A
  Python \<open>str\<close> is a list of 8-bit characters, that is, of code points below 256. Exceptions are
  values: a step returns \<open>Inr\<close> of its result or \<open>Inl\<close> of the exception raised.
\<close>

datatype pyval =
    PNone
  | PBool bool
  | PInt int
  | PFloat real
  | PStr string
  | PList "pyval list"
  | PDict "(string \<times> pyval) list"

datatype error =
    KeyError string
  | TypeError
  | ValueError
  | OverflowError
  | ImportError string
  | RuntimeError string
  | EngineError string

text \<open>Sequencing of two steps, the second of which runs only if the first did not raise.\<close>

definition and_then :: "error + 'a \<Rightarrow> ('a \<Rightarrow> error + 'b) \<Rightarrow> error + 'b" where
  "and_then m f = (case m of Inl e \<Rightarrow> Inl e | Inr v \<Rightarrow> f v)"

text \<open>Whether a step returned rather than raised.\<close>

definition returns :: "error + 'a \<Rightarrow> bool" where
  "returns m = (case m of Inl e \<Rightarrow> False | Inr v \<Rightarrow> True)"

text \<open>
  The parts of the interpreter that are taken as given: what \<open>float(s)\<close> returns for a
  string \<open>s\<close> (\<open>None\<close> when it raises ValueError), what \<open>str(v)\<close> returns for a value
  that is not a string, the float that \<open>x + y\<close> returns for two floats, and the float that
  \<open>float(i)\<close> returns for an integer within range. The last two round to a nearest float, so
  they are not the sum and the embedding of the real numbers. All four are a parameter of the
  model, and every theorem with a variable \<open>py\<close> holds for all of them.
\<close>

record builtins =
  float_of_str :: "string \<Rightarrow> real option"
  str_of :: "pyval \<Rightarrow> string"
  float_add :: "real \<Rightarrow> real \<Rightarrow> real"
  float_of_int :: "int \<Rightarrow> real"

text \<open>\<open>obj[key]\<close> for a string key.\<close>

fun py_getitem :: "pyval \<Rightarrow> string \<Rightarrow> error + pyval" where
  "py_getitem (PDict kvs) key =
     (case map_of kvs key of None \<Rightarrow> Inl (KeyError key) | Some v \<Rightarrow> Inr v)"
| "py_getitem _ key = Inl TypeError"

text \<open>\<open>key in obj\<close> for a string key: a key of a dictionary, an element of a list, a
  substring of a string; a TypeError on anything else.\<close>

fun py_substr :: "string \<Rightarrow> string \<Rightarrow> bool" where
  "py_substr key [] = (key = [])"
| "py_substr key (c # cs) = (take (length key) (c # cs) = key \<or> py_substr key cs)"

fun py_contains :: "string \<Rightarrow> pyval \<Rightarrow> error + bool" where
  "py_contains key (PDict kvs) = Inr (map_of kvs key \<noteq> None)"
| "py_contains key (PList xs) = Inr (PStr key \<in> set xs)"
| "py_contains key (PStr s) = Inr (py_substr key s)"
| "py_contains key _ = Inl TypeError"

text \<open>The truth value of \<open>obj\<close> in a condition.\<close>

fun py_truthy :: "pyval \<Rightarrow> bool" where
  "py_truthy PNone = False"
| "py_truthy (PBool b) = b"
| "py_truthy (PInt i) = (i \<noteq> 0)"
| "py_truthy (PFloat r) = (r \<noteq> 0)"
| "py_truthy (PStr s) = (s \<noteq> [])"
| "py_truthy (PList xs) = (xs \<noteq> [])"
| "py_truthy (PDict kvs) = (kvs \<noteq> [])"

text \<open>The elements a \<open>for\<close> loop over \<open>obj\<close> visits: those of a list, the characters of a
  string, the keys of a dictionary; a TypeError on anything else.\<close>

fun py_iter :: "pyval \<Rightarrow> error + pyval list" where
  "py_iter (PList xs) = Inr xs"
| "py_iter (PStr s) = Inr (map (\<lambda>c. PStr [c]) s)"
| "py_iter (PDict kvs) = Inr (map (\<lambda>kv. PStr (fst kv)) kvs)"
| "py_iter _ = Inl TypeError"

text \<open>\<open>isinstance(obj, list)\<close>.\<close>

fun is_list :: "pyval \<Rightarrow> bool" where
  "is_list (PList xs) = True"
| "is_list _ = False"

text \<open>\<open>float(obj)\<close>. An integer converts unless it rounds to a value beyond the largest
  float, in which case OverflowError is raised; \<open>bool\<close> is a subclass of \<open>int\<close>.\<close>

fun py_float :: "builtins \<Rightarrow> pyval \<Rightarrow> error + real" where
  "py_float py (PFloat r) = Inr r"
| "py_float py (PInt i) =
     (if \<bar>i\<bar> < 2 ^ 1024 - 2 ^ 970 then Inr (float_of_int py i) else Inl OverflowError)"
| "py_float py (PBool b) = Inr (if b then 1 else 0)"
| "py_float py (PStr s) =
     (case float_of_str py s of None \<Rightarrow> Inl ValueError | Some r \<Rightarrow> Inr r)"
| "py_float py _ = Inl TypeError"

text \<open>\<open>str(obj)\<close>.\<close>

fun py_str :: "builtins \<Rightarrow> pyval \<Rightarrow> string" where
  "py_str py (PStr s) = s"
| "py_str py v = str_of py v"

text \<open>\<open>s.strip()\<close>: the characters for which \<open>str.isspace\<close> holds, among the code points
  below 256, are removed from both ends.\<close>

definition isspace :: "char \<Rightarrow> bool" where
  "isspace c =
     (let n = (of_char c :: nat)
      in (9 \<le> n \<and> n \<le> 13) \<or> (28 \<le> n \<and> n \<le> 32) \<or> n = 133 \<or> n = 160)"

definition strip :: "string \<Rightarrow> string" where
  "strip s = rev (dropWhile isspace (rev (dropWhile isspace s)))"

section \<open>The caption document\<close>

text \<open>
  Modelled from the spec: the classes \<open>TimeFragment\<close>, \<open>Word\<close>, \<open>Line\<close>, \<open>Segment\<close> and
  \<open>Document\<close> of \<open>pycaps.common\<close>, which the transcriber imports and which are not part
  of the source file. Following the spec's data model, a TimeFragment is a pair of a
  start and an end that its constructor does not validate, and every container is an
  ordered sequence whose \<open>add\<close> appends at the end.
\<close>

record TimeFragment =
  tf_start :: real
  tf_end :: real

record Word =
  w_text :: string
  w_time :: TimeFragment

record Line =
  l_time :: TimeFragment
  words :: "Word list"

record Segment =
  s_time :: TimeFragment
  lines :: "Line list"

record Document =
  segments :: "Segment list"

section \<open>WhisperAudioTranscriber.transcribe\<close>

text \<open>\<open>float(obj[key])\<close>, as in \<open>float(segment_info["start"])\<close>: the lookup first, then
  the conversion.\<close>

definition float_item :: "builtins \<Rightarrow> pyval \<Rightarrow> string \<Rightarrow> error + real" where
  "float_item py obj key = and_then (py_getitem obj key) (py_float py)"

text \<open>
  The body of the inner loop (lines 55 to 64): the Word built from one word record, or
  \<open>None\<close> where the loop takes \<open>continue\<close> because the trimmed text is empty.
\<close>

definition word_of_entry :: "builtins \<Rightarrow> pyval \<Rightarrow> error + Word option" where
  "word_of_entry py word_entry =
     and_then (py_getitem word_entry ''word'') (\<lambda>w.
       let word_text = strip (py_str py w) in
       if word_text = [] then Inr None
       else
         and_then (float_item py word_entry ''start'') (\<lambda>word_start.
         and_then (float_item py word_entry ''end'') (\<lambda>word_end0.
           let word_end = (if word_start = word_end0 then float_add py word_start 0.01 else word_end0);
               word_time = \<lparr>tf_start = word_start, tf_end = word_end\<rparr>
           in Inr (Some \<lparr>w_text = word_text, w_time = word_time\<rparr>))))"

text \<open>The inner loop (lines 53 to 65): \<open>line.words.add(word)\<close> for each Word built, in the
  order of the word records; an exception ends the loop.\<close>

fun words_loop :: "builtins \<Rightarrow> Line \<Rightarrow> pyval list \<Rightarrow> error + Line" where
  "words_loop py line [] = Inr line"
| "words_loop py line (word_entry # rest) =
     (case word_of_entry py word_entry of
        Inl e \<Rightarrow> Inl e
      | Inr None \<Rightarrow> words_loop py line rest
      | Inr (Some word) \<Rightarrow> words_loop py (line\<lparr>words := words line @ [word]\<rparr>) rest)"

text \<open>The condition of line 49,
  \<open>not "words" in segment_info or not isinstance(segment_info["words"], list)\<close>,
  with the short-circuit of \<open>or\<close>.\<close>

definition no_word_data :: "pyval \<Rightarrow> error + bool" where
  "no_word_data segment_info =
     and_then (py_contains ''words'' segment_info) (\<lambda>has_words.
       if \<not> has_words then Inr True
       else and_then (py_getitem segment_info ''words'') (\<lambda>ws. Inr (\<not> is_list ws)))"

text \<open>
  The body of the outer loop (lines 40 to 65): the Segment built from one segment record,
  or \<open>None\<close> where the loop takes the \<open>continue\<close> of line 51, which skips the
  \<open>document.segments.add(segment)\<close> of line 67. The debug message of line 50 is
  formatted before it is logged, so \<open>segment_info['text']\<close> is looked up there. The Line
  is added to the Segment before its words are filled in; the Segment holds a reference to
  it, so the words added afterwards are the words of the Segment's Line.
\<close>

definition segment_of_info :: "builtins \<Rightarrow> pyval \<Rightarrow> error + Segment option" where
  "segment_of_info py segment_info =
     and_then (float_item py segment_info ''start'') (\<lambda>segment_start.
     and_then (float_item py segment_info ''end'') (\<lambda>segment_end0.
       let segment_end =
             (if segment_start = segment_end0 then float_add py segment_start 0.01 else segment_end0);
           segment_time = \<lparr>tf_start = segment_start, tf_end = segment_end\<rparr>;
           line = \<lparr>l_time = segment_time, words = []\<rparr>
       in
         and_then (no_word_data segment_info) (\<lambda>skip.
           if skip then and_then (py_getitem segment_info ''text'') (\<lambda>_. Inr None)
           else
             and_then (py_getitem segment_info ''words'') (\<lambda>ws.
             and_then (py_iter ws) (\<lambda>word_entries.
             and_then (words_loop py line word_entries) (\<lambda>line'.
               Inr (Some \<lparr>s_time = segment_time, lines = [line']\<rparr>)))))))"

text \<open>The outer loop (lines 39 to 67).\<close>

fun segments_loop :: "builtins \<Rightarrow> Document \<Rightarrow> pyval list \<Rightarrow> error + Document" where
  "segments_loop py document [] = Inr document"
| "segments_loop py document (segment_info # rest) =
     (case segment_of_info py segment_info of
        Inl e \<Rightarrow> Inl e
      | Inr None \<Rightarrow> segments_loop py document rest
      | Inr (Some segment) \<Rightarrow>
          segments_loop py (document\<lparr>segments := segments document @ [segment]\<rparr>) rest)"

text \<open>
  Lines 33 to 72 of \<open>transcribe\<close>: the Document built from the engine's result. Logging has
  no effect on the value returned.
\<close>

definition transcribe_result :: "builtins \<Rightarrow> pyval \<Rightarrow> error + Document" where
  "transcribe_result py result =
     and_then (py_contains ''segments'' result) (\<lambda>has_segments.
       if \<not> has_segments then Inr \<lparr>segments = []\<rparr>
       else
         and_then (py_getitem result ''segments'') (\<lambda>segs.
           if \<not> py_truthy segs then Inr \<lparr>segments = []\<rparr>
           else
             and_then (py_iter segs) (\<lambda>segment_infos.
               segments_loop py \<lparr>segments = []\<rparr> segment_infos)))"

section \<open>WhisperAudioTranscriber._get_model\<close>

text \<open>The fields that \<open>__init__\<close> stores; \<open>'m\<close> is the type of a loaded Whisper model.\<close>

record 'm WhisperAudioTranscriber =
  model_size :: string
  language :: "string option"
  model :: "'m option"
  device :: "string option"

text \<open>
  The \<open>whisper\<close> package, as the transcriber meets it: whether \<open>import whisper\<close> succeeds
  (\<open>None\<close>) or raises (the message of the exception), what \<open>whisper.load_model(name)\<close> or
  \<open>whisper.load_model(name, device=d)\<close> does (the model, or \<open>str(e)\<close> of the
  \<open>Exception\<close> it raises), and what a model's own \<open>transcribe\<close> returns for an audio
  path and a language.
\<close>

record 'm whisper_module =
  whisper_import :: "string option"
  whisper_load_model :: "string \<Rightarrow> string option \<Rightarrow> string + 'm"
  whisper_transcribe :: "'m \<Rightarrow> string \<Rightarrow> string option \<Rightarrow> error + pyval"

text \<open>The device argument of the call to \<open>load_model\<close>: \<open>self._device\<close> if it is truthy
  (line 82), no argument otherwise.\<close>

definition load_device :: "'m WhisperAudioTranscriber \<Rightarrow> string option" where
  "load_device self =
     (case device self of None \<Rightarrow> None | Some d \<Rightarrow> (if d = [] then None else Some d))"

text \<open>\<open>self._device\<close> as an f-string prints it.\<close>

definition device_text :: "'m WhisperAudioTranscriber \<Rightarrow> string" where
  "device_text self = (case device self of None \<Rightarrow> ''None'' | Some d \<Rightarrow> d)"

text \<open>The message of the RuntimeError of lines 90 to 93, for the exception text \<open>e\<close>.\<close>

definition load_error_message :: "'m WhisperAudioTranscriber \<Rightarrow> string \<Rightarrow> string" where
  "load_error_message self e =
     ''Error loading Whisper model (size: '' @ model_size self @ '', device: '' @
     device_text self @ ''): '' @ e @ [CHR 0x0A] @
     ''Ensure Whisper is installed and models are available (or can be downloaded).''"

text \<open>
  \<open>_get_model\<close> (lines 74 to 93). The state is the transcriber and the list of the calls made
  to \<open>load_model\<close> so far, each with its model name and device argument; the result is what
  is returned or raised. The \<open>import\<close> of line 78 stands before the \<open>try\<close>, so its
  exception is not caught.
\<close>

definition get_model ::
  "'m whisper_module \<Rightarrow> 'm WhisperAudioTranscriber \<Rightarrow> (string \<times> string option) list \<Rightarrow>
   (error + 'm) \<times> 'm WhisperAudioTranscriber \<times> (string \<times> string option) list" where
  "get_model whisper self calls =
     (case model self of
        Some m \<Rightarrow> (Inr m, self, calls)
      | None \<Rightarrow>
          (case whisper_import whisper of
             Some msg \<Rightarrow> (Inl (ImportError msg), self, calls)
           | None \<Rightarrow>
               (case whisper_load_model whisper (model_size self) (load_device self) of
                  Inr m \<Rightarrow>
                    (Inr m, self\<lparr>model := Some m\<rparr>, calls @ [(model_size self, load_device self)])
                | Inl e \<Rightarrow>
                    (Inl (RuntimeError (load_error_message self e)), self,
                     calls @ [(model_size self, load_device self)]))))"

text \<open>\<open>transcribe\<close> as a whole (lines 26 to 72): the model is obtained, run on the audio
  file, and its result turned into a Document.\<close>

definition transcribe ::
  "builtins \<Rightarrow> 'm whisper_module \<Rightarrow> 'm WhisperAudioTranscriber \<Rightarrow> (string \<times> string option) list \<Rightarrow>
   string \<Rightarrow> (error + Document) \<times> 'm WhisperAudioTranscriber \<times> (string \<times> string option) list" where
  "transcribe py whisper self calls audio_path =
     (case get_model whisper self calls of
        (Inl e, self', calls') \<Rightarrow> (Inl e, self', calls')
      | (Inr m, self', calls') \<Rightarrow>
          (and_then (whisper_transcribe whisper m audio_path (language self))
             (transcribe_result py), self', calls'))"

section \<open>Reading the engine's result\<close>

text \<open>The records the outer loop visits: the elements of \<open>result["segments"]\<close>, none if
  there is no such entry.\<close>

definition segment_infos :: "pyval \<Rightarrow> pyval list" where
  "segment_infos result =
     (case py_getitem result ''segments'' of
        Inl e \<Rightarrow> []
      | Inr segs \<Rightarrow> (case py_iter segs of Inl e \<Rightarrow> [] | Inr infos \<Rightarrow> infos))"

text \<open>A segment record has usable word data if its \<open>words\<close> entry is present and a list;
  \<open>word_list\<close> is that list.\<close>

definition has_word_list :: "pyval \<Rightarrow> bool" where
  "has_word_list segment_info =
     (case py_getitem segment_info ''words'' of Inr (PList ws) \<Rightarrow> True | _ \<Rightarrow> False)"

definition word_list :: "pyval \<Rightarrow> pyval list" where
  "word_list segment_info =
     (case py_getitem segment_info ''words'' of Inr (PList ws) \<Rightarrow> ws | _ \<Rightarrow> [])"

text \<open>The \<open>word\<close> entry of a word record, coerced to a string and trimmed.\<close>

definition trimmed_word :: "builtins \<Rightarrow> pyval \<Rightarrow> string" where
  "trimmed_word py word_entry =
     (case py_getitem word_entry ''word'' of Inl e \<Rightarrow> [] | Inr w \<Rightarrow> strip (py_str py w))"

text \<open>The coerced \<open>start\<close> and \<open>end\<close> of a record as they stand in the input, with no
  correction; meaningful where both conversions succeed.\<close>

definition input_span :: "builtins \<Rightarrow> pyval \<Rightarrow> TimeFragment" where
  "input_span py entry =
     \<lparr>tf_start = (case float_item py entry ''start'' of Inr s \<Rightarrow> s | Inl e \<Rightarrow> 0),
      tf_end = (case float_item py entry ''end'' of Inr e \<Rightarrow> e | Inl e \<Rightarrow> 0)\<rparr>"

text \<open>What one record contributes to its container: the Words added for a word record and
  the Segments added for a segment record (one or none).\<close>

definition built_words :: "builtins \<Rightarrow> pyval \<Rightarrow> Word list" where
  "built_words py word_entry =
     (case word_of_entry py word_entry of Inr (Some word) \<Rightarrow> [word] | _ \<Rightarrow> [])"

definition built_segments :: "builtins \<Rightarrow> pyval \<Rightarrow> Segment list" where
  "built_segments py segment_info =
     (case segment_of_info py segment_info of Inr (Some segment) \<Rightarrow> [segment] | _ \<Rightarrow> [])"

text \<open>
  The same, in closed form. A record's span after the correction of lines 42 to 43 and 61 to
  62; the Word that a word record with a non-empty trimmed text gives; the Segment, with its
  one Line, that a segment record with a word list gives.
\<close>

definition corrected_span :: "builtins \<Rightarrow> pyval \<Rightarrow> TimeFragment" where
  "corrected_span py entry =
     (let t = input_span py entry
      in if tf_start t = tf_end t then t\<lparr>tf_end := float_add py (tf_start t) 0.01\<rparr> else t)"

text \<open>Whether a record's span is increasing once corrected, read off the input: its
  coerced start lies before its coerced end, or the two are equal and the float sum of the
  start and \<open>0.01\<close> is greater than the start.\<close>

definition increasing_when_built :: "builtins \<Rightarrow> pyval \<Rightarrow> bool" where
  "increasing_when_built py entry =
     (let t = input_span py entry
      in tf_start t < tf_end t \<or>
         (tf_start t = tf_end t \<and> tf_start t < float_add py (tf_start t) 0.01))"

definition word_for :: "builtins \<Rightarrow> pyval \<Rightarrow> Word" where
  "word_for py word_entry =
     \<lparr>w_text = trimmed_word py word_entry, w_time = corrected_span py word_entry\<rparr>"

definition segment_for :: "builtins \<Rightarrow> pyval \<Rightarrow> Segment" where
  "segment_for py segment_info =
     \<lparr>s_time = corrected_span py segment_info,
      lines =
        [\<lparr>l_time = corrected_span py segment_info,
          words = map (word_for py)
                    (filter (\<lambda>we. trimmed_word py we \<noteq> []) (word_list segment_info))\<rparr>]\<rparr>"

text \<open>
  The inputs on which \<open>transcribe\<close> returns. \<open>float(obj[key])\<close> returns when \<open>obj\<close> is a
  dictionary with a convertible entry \<open>key\<close>. A word record is read without an exception
  when it has a \<open>word\<close> entry and, unless that trims to nothing, a convertible \<open>start\<close> and
  \<open>end\<close>; a segment record when it has a convertible \<open>start\<close> and \<open>end\<close> and either a
  list of such word records or, the list being unusable, a \<open>text\<close> entry for the message
  of line 50.
\<close>

definition numeric :: "builtins \<Rightarrow> pyval \<Rightarrow> bool" where
  "numeric py v =
     (case v of
        PFloat r \<Rightarrow> True
      | PInt i \<Rightarrow> \<bar>i\<bar> < 2 ^ 1024 - 2 ^ 970
      | PBool b \<Rightarrow> True
      | PStr s \<Rightarrow> float_of_str py s \<noteq> None
      | _ \<Rightarrow> False)"

definition has_key :: "pyval \<Rightarrow> string \<Rightarrow> bool" where
  "has_key obj key = (case obj of PDict kvs \<Rightarrow> map_of kvs key \<noteq> None | _ \<Rightarrow> False)"

definition has_number :: "builtins \<Rightarrow> pyval \<Rightarrow> string \<Rightarrow> bool" where
  "has_number py obj key =
     (case obj of
        PDict kvs \<Rightarrow> (case map_of kvs key of None \<Rightarrow> False | Some v \<Rightarrow> numeric py v)
      | _ \<Rightarrow> False)"

definition readable_word :: "builtins \<Rightarrow> pyval \<Rightarrow> bool" where
  "readable_word py word_entry =
     (has_key word_entry ''word'' \<and>
      (trimmed_word py word_entry = [] \<or>
       (has_number py word_entry ''start'' \<and> has_number py word_entry ''end'')))"

definition readable_segment :: "builtins \<Rightarrow> pyval \<Rightarrow> bool" where
  "readable_segment py segment_info =
     (has_number py segment_info ''start'' \<and> has_number py segment_info ''end'' \<and>
      (if has_word_list segment_info
       then list_all (readable_word py) (word_list segment_info)
       else has_key segment_info ''text''))"

definition readable_result :: "builtins \<Rightarrow> pyval \<Rightarrow> bool" where
  "readable_result py result =
     (case py_contains ''segments'' result of
        Inl e \<Rightarrow> False
      | Inr False \<Rightarrow> True
      | Inr True \<Rightarrow>
          (case py_getitem result ''segments'' of
             Inl e \<Rightarrow> False
           | Inr segs \<Rightarrow>
               \<not> py_truthy segs \<or> (is_list segs \<and> list_all (readable_segment py) (segment_infos result))))"

text \<open>
  An instance for the closed examples below. In those examples every \<open>start\<close> and
  \<open>end\<close> that is read is a \<open>PFloat\<close> or \<open>None\<close> and every \<open>word\<close> is a \<open>PStr\<close>, so
  none of the three conversions is reached when they are evaluated. The only sums reached
  are \<open>1.0 + 0.01\<close> and \<open>3.0 + 0.01\<close>, for which the interpreter returns the floats
  \<open>1.01\<close> and \<open>3.01\<close>, as the sum of this instance does.
\<close>

definition plain :: builtins where
  "plain =
     \<lparr>float_of_str = (\<lambda>s. None), str_of = (\<lambda>v. ''None''),
      float_add = (\<lambda>x y. x + y), float_of_int = of_int\<rparr>"

section \<open>Example inputs\<close>

text \<open>
  Inputs for the closed examples. \<open>scenario_2\<close> and \<open>scenario_3\<close> are scenarios 2 and 3 of
  the spec. \<open>scenario_4\<close> has three segment records: one whose word list holds a blank
  word record without timestamps between two valid ones, one without a \<open>words\<close> entry, and
  one with an empty word list and a zero-length span.
\<close>

definition scenario_2_word :: pyval where
  "scenario_2_word =
     PDict [(''word'', PStr '' hi ''), (''start'', PFloat 1.0), (''end'', PFloat 1.0)]"

definition scenario_2_segment :: pyval where
  "scenario_2_segment =
     PDict [(''start'', PFloat 1.0), (''end'', PFloat 1.0), (''text'', PStr ''hi''),
            (''words'', PList [scenario_2_word])]"

definition scenario_2 :: pyval where
  "scenario_2 = PDict [(''segments'', PList [scenario_2_segment])]"

definition scenario_3 :: pyval where
  "scenario_3 =
     PDict [(''segments'', PList
       [PDict [(''start'', PFloat 0.0), (''end'', PFloat 2.0), (''text'', PStr ''um'')]])]"

definition scenario_4 :: pyval where
  "scenario_4 =
     PDict [(''segments'', PList
       [PDict [(''start'', PFloat 0.0), (''end'', PFloat 2.0), (''text'', PStr ''a b''),
               (''words'', PList
                  [PDict [(''word'', PStr ''a''), (''start'', PFloat 0.0), (''end'', PFloat 1.0)],
                   PDict [(''word'', PStr ''   '')],
                   PDict [(''word'', PStr '' b''), (''start'', PFloat 1.0),
                          (''end'', PFloat 2.0)]])],
        PDict [(''start'', PFloat 2.0), (''end'', PFloat 3.0), (''text'', PStr ''um'')],
        PDict [(''start'', PFloat 3.0), (''end'', PFloat 3.0), (''text'', PStr ''''),
               (''words'', PList [])]])]"

text \<open>A segment and a word whose end lies before their start.\<close>

definition reversed_spans :: pyval where
  "reversed_spans =
     PDict [(''segments'', PList
       [PDict [(''start'', PFloat 2.0), (''end'', PFloat 1.0), (''text'', PStr ''no''),
               (''words'', PList
                  [PDict [(''word'', PStr ''no''), (''start'', PFloat 1.5),
                          (''end'', PFloat 1.2)]])]])]"

text \<open>A segment and two words whose spans are already increasing.\<close>

definition increasing_spans :: pyval where
  "increasing_spans =
     PDict [(''segments'', PList
       [PDict [(''start'', PFloat 0.5), (''end'', PFloat 2.0), (''text'', PStr ''so it''),
               (''words'', PList
                  [PDict [(''word'', PStr '' so''), (''start'', PFloat 0.5),
                          (''end'', PFloat 1.0)],
                   PDict [(''word'', PStr '' it''), (''start'', PFloat 1.0),
                          (''end'', PFloat 2.0)]])]])]"

text \<open>Two words recognised in an order that is not the order of their start times.\<close>

definition unsorted_words :: pyval where
  "unsorted_words =
     PDict [(''segments'', PList
       [PDict [(''start'', PFloat 0.0), (''end'', PFloat 2.0), (''text'', PStr ''b a''),
               (''words'', PList
                  [PDict [(''word'', PStr ''b''), (''start'', PFloat 1.0),
                          (''end'', PFloat 2.0)],
                   PDict [(''word'', PStr ''a''), (''start'', PFloat 0.0),
                          (''end'', PFloat 1.0)]])]])]"

text \<open>A word list with two blank word records: one with no timestamps, one with a
  \<open>start\<close> and an \<open>end\<close> that \<open>float\<close> does not convert.\<close>

definition blank_words :: pyval where
  "blank_words =
     PDict [(''segments'', PList
       [PDict [(''start'', PFloat 0.0), (''end'', PFloat 2.0), (''text'', PStr ''a''),
               (''words'', PList
                  [PDict [(''word'', PStr ''  '')],
                   PDict [(''word'', PStr ''a''), (''start'', PFloat 0.0),
                          (''end'', PFloat 2.0)],
                   PDict [(''word'', PStr ''''), (''start'', PNone),
                          (''end'', PStr ''soon'')]])]])]"

text \<open>A transcriber that was given a model, with a package whose models return an empty
  result; and a transcriber that was given none, with a package whose \<open>load_model\<close>
  raises.\<close>

definition preloaded :: "unit WhisperAudioTranscriber" where
  "preloaded = \<lparr>model_size = ''base'', language = None, model = Some (), device = None\<rparr>"

definition silent_whisper :: "unit whisper_module" where
  "silent_whisper =
     \<lparr>whisper_import = None,
      whisper_load_model = (\<lambda>name dev. Inr ()),
      whisper_transcribe = (\<lambda>m audio_path lang. Inr (PDict []))\<rparr>"

definition unloaded :: "unit WhisperAudioTranscriber" where
  "unloaded = \<lparr>model_size = ''base'', language = None, model = None, device = Some ''cuda''\<rparr>"

definition failing_whisper :: "unit whisper_module" where
  "failing_whisper =
     \<lparr>whisper_import = None,
      whisper_load_model = (\<lambda>name dev. Inl ''CUDA is not available''),
      whisper_transcribe = (\<lambda>m audio_path lang. Inr (PDict []))\<rparr>"

text \<open>A package that is not installed: \<open>import whisper\<close> raises.\<close>

definition missing_whisper :: "unit whisper_module" where
  "missing_whisper =
     \<lparr>whisper_import = Some ''No module named whisper'',
      whisper_load_model = (\<lambda>name dev. Inr ()),
      whisper_transcribe = (\<lambda>m audio_path lang. Inr (PDict []))\<rparr>"

section \<open>The loops, record by record\<close>

lemma and_then_Inl [simp]: "and_then (Inl e) f = Inl e"
  by (simp add: and_then_def)

lemma and_then_Inr [simp]: "and_then (Inr v) f = f v"
  by (simp add: and_then_def)

lemma and_then_eq_Inr: "and_then m f = Inr y \<longleftrightarrow> (\<exists>v. m = Inr v \<and> f v = Inr y)"
  by (cases m) simp_all

lemma words_loop_built:
  "words_loop py line ws = Inr line' \<Longrightarrow>
   line' = line\<lparr>words := words line @ concat (map (built_words py) ws)\<rparr>"
proof (induction ws arbitrary: line)
  case Nil
  then show ?case by simp
next
  case (Cons we ws)
  show ?case
  proof (cases "word_of_entry py we")
    case (Inl e)
    with Cons.prems show ?thesis by simp
  next
    case (Inr r)
    show ?thesis
    proof (cases r)
      case None
      with Inr Cons.prems have "words_loop py line ws = Inr line'" by simp
      from Cons.IH [OF this] Inr None show ?thesis by (simp add: built_words_def)
    next
      case (Some word)
      with Inr Cons.prems
      have "words_loop py (line\<lparr>words := words line @ [word]\<rparr>) ws = Inr line'" by simp
      from Cons.IH [OF this] Inr Some show ?thesis by (simp add: built_words_def)
    qed
  qed
qed

lemma segments_loop_built:
  "segments_loop py document infos = Inr document' \<Longrightarrow>
   segments document' = segments document @ concat (map (built_segments py) infos)"
proof (induction infos arbitrary: document)
  case Nil
  then show ?case by simp
next
  case (Cons si infos)
  show ?case
  proof (cases "segment_of_info py si")
    case (Inl e)
    with Cons.prems show ?thesis by simp
  next
    case (Inr r)
    show ?thesis
    proof (cases r)
      case None
      with Inr Cons.prems have "segments_loop py document infos = Inr document'" by simp
      from Cons.IH [OF this] Inr None show ?thesis by (simp add: built_segments_def)
    next
      case (Some segment)
      with Inr Cons.prems
      have "segments_loop py (document\<lparr>segments := segments document @ [segment]\<rparr>) infos
              = Inr document'" by simp
      from Cons.IH [OF this] Inr Some show ?thesis by (simp add: built_segments_def)
    qed
  qed
qed

lemma py_iter_falsy: "\<not> py_truthy segs \<Longrightarrow> py_iter segs = Inr infos \<Longrightarrow> infos = []"
  by (cases segs) auto

lemma py_contains_getitem:
  "py_contains key obj = Inr False \<Longrightarrow> \<exists>e. py_getitem obj key = Inl e"
  by (cases obj) auto

lemma transcribe_result_built:
  assumes "transcribe_result py result = Inr doc"
  shows "segments doc = concat (map (built_segments py) (segment_infos result))"
proof -
  from assms obtain has where has: "py_contains ''segments'' result = Inr has"
    by (auto simp: transcribe_result_def and_then_eq_Inr)
  show ?thesis
  proof (cases has)
    case False
    with has assms have "segments doc = []"
      by (auto simp: transcribe_result_def)
    moreover from False has have "segment_infos result = []"
      by (auto simp: segment_infos_def dest: py_contains_getitem)
    ultimately show ?thesis by simp
  next
    case True
    with has assms obtain segs where segs: "py_getitem result ''segments'' = Inr segs"
      by (auto simp: transcribe_result_def and_then_eq_Inr)
    show ?thesis
    proof (cases "py_truthy segs")
      case False
      with True has segs assms have "segments doc = []"
        by (auto simp: transcribe_result_def)
      moreover from False segs have "segment_infos result = []"
        by (auto simp: segment_infos_def split: sum.splits dest: py_iter_falsy)
      ultimately show ?thesis by simp
    next
      case truthy: True
      with True has segs assms obtain infos where
        infos: "py_iter segs = Inr infos" and
        loop: "segments_loop py \<lparr>segments = []\<rparr> infos = Inr doc"
        by (auto simp: transcribe_result_def and_then_eq_Inr)
      from segs infos have "segment_infos result = infos"
        by (simp add: segment_infos_def)
      with segments_loop_built [OF loop] show ?thesis by simp
    qed
  qed
qed

lemma word_of_entry_Some:
  assumes "word_of_entry py we = Inr (Some word)"
  shows "\<exists>s e0. float_item py we ''start'' = Inr s \<and> float_item py we ''end'' = Inr e0 \<and>
           word = \<lparr>w_text = trimmed_word py we,
                   w_time = \<lparr>tf_start = s, tf_end = (if s = e0 then float_add py s 0.01 else e0)\<rparr>\<rparr>"
    and "trimmed_word py we \<noteq> []"
  using assms
  by (auto simp: word_of_entry_def trimmed_word_def and_then_eq_Inr Let_def split: if_splits)

lemma word_of_entry_None:
  assumes "word_of_entry py we = Inr None"
  shows "trimmed_word py we = []" and "\<exists>w. py_getitem we ''word'' = Inr w"
  using assms
  by (auto simp: word_of_entry_def trimmed_word_def and_then_eq_Inr Let_def split: if_splits)

lemma no_word_data_False:
  "no_word_data si = Inr False \<longleftrightarrow> has_word_list si"
  by (cases si; cases "py_getitem si ''words''")
     (auto simp: no_word_data_def has_word_list_def and_then_eq_Inr split: option.splits pyval.splits)

lemma no_word_data_True:
  "no_word_data si = Inr True \<Longrightarrow> \<not> has_word_list si"
  using no_word_data_False [of si] by auto

lemma has_word_list_iter:
  "has_word_list si \<Longrightarrow> py_getitem si ''words'' = Inr ws \<Longrightarrow> py_iter ws = Inr (word_list si)"
  by (auto simp: has_word_list_def word_list_def split: sum.splits pyval.splits)

lemma segment_of_info_Some:
  assumes "segment_of_info py si = Inr (Some segment)"
  shows "has_word_list si"
    and "\<exists>s e0. float_item py si ''start'' = Inr s \<and> float_item py si ''end'' = Inr e0 \<and>
           s_time segment = \<lparr>tf_start = s, tf_end = (if s = e0 then float_add py s 0.01 else e0)\<rparr>"
    and "lines segment =
           [\<lparr>l_time = s_time segment, words = concat (map (built_words py) (word_list si))\<rparr>]"
proof -
  from assms obtain s e0 skip where
    s: "float_item py si ''start'' = Inr s" and e0: "float_item py si ''end'' = Inr e0" and
    skip: "no_word_data si = Inr skip"
    by (auto simp: segment_of_info_def and_then_eq_Inr Let_def)
  define t where "t = \<lparr>tf_start = s, tf_end = (if s = e0 then float_add py s 0.01 else e0)\<rparr>"
  from assms s e0 skip have "\<not> skip"
    by (auto simp: segment_of_info_def and_then_eq_Inr Let_def split: if_splits)
  with skip show hwl: "has_word_list si" by (simp add: no_word_data_False)
  from assms s e0 skip \<open>\<not> skip\<close> obtain ws entries line' where
    ws: "py_getitem si ''words'' = Inr ws" and entries: "py_iter ws = Inr entries" and
    loop: "words_loop py \<lparr>l_time = t, words = []\<rparr> entries = Inr line'" and
    seg: "segment = \<lparr>s_time = t, lines = [line']\<rparr>"
    by (auto simp: segment_of_info_def and_then_eq_Inr Let_def t_def)
  from has_word_list_iter [OF hwl ws] entries have "entries = word_list si" by simp
  with words_loop_built [OF loop]
  have "line' = \<lparr>l_time = t, words = concat (map (built_words py) (word_list si))\<rparr>" by simp
  with seg show "lines segment =
      [\<lparr>l_time = s_time segment, words = concat (map (built_words py) (word_list si))\<rparr>]"
    by simp
  from seg s e0 show "\<exists>s e0. float_item py si ''start'' = Inr s \<and> float_item py si ''end'' = Inr e0 \<and>
           s_time segment = \<lparr>tf_start = s, tf_end = (if s = e0 then float_add py s 0.01 else e0)\<rparr>"
    by (simp add: t_def)
qed

lemma segment_of_info_None:
  assumes "segment_of_info py si = Inr None"
  shows "\<not> has_word_list si"
proof -
  from assms obtain skip where skip: "no_word_data si = Inr skip"
    by (auto simp: segment_of_info_def and_then_eq_Inr Let_def)
  with assms have skip
    by (auto simp: segment_of_info_def and_then_eq_Inr Let_def split: if_splits)
  with skip show ?thesis by (auto dest: no_word_data_True)
qed

section \<open>When the loops return\<close>

lemma returns_simps [simp]: "returns (Inr v)" "\<not> returns (Inl e)"
  by (simp_all add: returns_def)

lemma returns_iff: "returns m \<longleftrightarrow> (\<exists>v. m = Inr v)"
  by (cases m) simp_all

lemma returns_and_then: "returns (and_then m f) \<longleftrightarrow> (\<exists>v. m = Inr v \<and> returns (f v))"
  by (cases m) simp_all

lemma returns_and_then_Inr: "returns (and_then m (\<lambda>v. Inr (g v))) \<longleftrightarrow> returns m"
  by (cases m) simp_all

lemma py_float_returns: "returns (py_float py v) \<longleftrightarrow> numeric py v"
  by (cases v) (auto simp: numeric_def split: option.splits)

lemma float_item_returns: "returns (float_item py obj key) \<longleftrightarrow> has_number py obj key"
  by (cases obj)
     (auto simp: float_item_def has_number_def returns_and_then py_float_returns
           split: option.splits)

lemma getitem_returns: "returns (py_getitem obj key) \<longleftrightarrow> has_key obj key"
  by (cases obj) (auto simp: has_key_def split: option.splits)

lemma word_of_entry_returns: "returns (word_of_entry py we) \<longleftrightarrow> readable_word py we"
proof (cases "py_getitem we ''word''")
  case (Inl e)
  then have "\<not> has_key we ''word''" using getitem_returns [of we "''word''"] by simp
  with Inl show ?thesis by (simp add: word_of_entry_def readable_word_def)
next
  case (Inr w)
  then have k: "has_key we ''word''" using getitem_returns [of we "''word''"] by simp
  from Inr have t: "trimmed_word py we = strip (py_str py w)" by (simp add: trimmed_word_def)
  show ?thesis
  proof (cases "strip (py_str py w) = []")
    case True
    with Inr k t show ?thesis by (simp add: word_of_entry_def readable_word_def)
  next
    case False
    show ?thesis
    proof (cases "float_item py we ''start''")
      case (Inl e)
      then have "\<not> has_number py we ''start''"
        using float_item_returns [of py we "''start''"] by simp
      with Inl Inr False t show ?thesis by (simp add: word_of_entry_def readable_word_def)
    next
      case s: (Inr s)
      then have hs: "has_number py we ''start''"
        using float_item_returns [of py we "''start''"] by simp
      show ?thesis
      proof (cases "float_item py we ''end''")
        case (Inl e)
        then have "\<not> has_number py we ''end''"
          using float_item_returns [of py we "''end''"] by simp
        with Inl s Inr False t show ?thesis by (simp add: word_of_entry_def readable_word_def)
      next
        case e0: (Inr e0)
        then have "has_number py we ''end''"
          using float_item_returns [of py we "''end''"] by simp
        with e0 s hs Inr k show ?thesis
          by (simp add: word_of_entry_def readable_word_def Let_def)
      qed
    qed
  qed
qed

lemma words_loop_returns:
  "returns (words_loop py line ws) \<longleftrightarrow> list_all (readable_word py) ws"
proof (induction ws arbitrary: line)
  case Nil
  show ?case by simp
next
  case (Cons we ws)
  show ?case
  proof (cases "word_of_entry py we")
    case (Inl e)
    then show ?thesis using word_of_entry_returns [of py we] by simp
  next
    case (Inr r)
    then have "readable_word py we" using word_of_entry_returns [of py we] by simp
    with Inr Cons.IH show ?thesis by (cases r) simp_all
  qed
qed

lemma segment_of_info_returns:
  "returns (segment_of_info py si) \<longleftrightarrow> readable_segment py si"
proof (cases "has_number py si ''start'' \<and> has_number py si ''end''")
  case False
  then show ?thesis
    using float_item_returns [of py si "''start''"] float_item_returns [of py si "''end''"]
    by (auto simp: segment_of_info_def readable_segment_def returns_and_then Let_def)
next
  case True
  then obtain s e0 where s: "float_item py si ''start'' = Inr s"
    and e0: "float_item py si ''end'' = Inr e0"
    using float_item_returns [of py si "''start''"] float_item_returns [of py si "''end''"]
    by (auto simp: returns_iff)
  from True obtain kvs where kvs: "si = PDict kvs"
    by (cases si) (auto simp: has_number_def)
  show ?thesis
  proof (cases "has_word_list si")
    case hwl: True
    then have nwd: "no_word_data si = Inr False" by (simp add: no_word_data_False)
    from hwl obtain ws where ws: "py_getitem si ''words'' = Inr ws"
      by (auto simp: has_word_list_def split: sum.splits)
    from has_word_list_iter [OF hwl ws] s e0 nwd ws True hwl show ?thesis
      by (simp add: segment_of_info_def readable_segment_def returns_and_then_Inr Let_def
            words_loop_returns)
  next
    case nwl: False
    with kvs have nwd: "no_word_data si = Inr True"
      by (auto simp: no_word_data_def has_word_list_def split: option.splits pyval.splits)
    with s e0 True nwl show ?thesis
      using getitem_returns [of si "''text''"]
      by (simp add: segment_of_info_def readable_segment_def returns_and_then_Inr Let_def)
  qed
qed

lemma segments_loop_returns:
  "returns (segments_loop py document infos) \<longleftrightarrow> list_all (readable_segment py) infos"
proof (induction infos arbitrary: document)
  case Nil
  show ?case by simp
next
  case (Cons si infos)
  show ?case
  proof (cases "segment_of_info py si")
    case (Inl e)
    then show ?thesis using segment_of_info_returns [of py si] by simp
  next
    case (Inr r)
    then have "readable_segment py si" using segment_of_info_returns [of py si] by simp
    with Inr Cons.IH show ?thesis by (cases r) simp_all
  qed
qed

lemma truthy_not_list:
  assumes "py_truthy segs" "\<not> is_list segs"
  shows "\<not> returns (and_then (py_iter segs) (segments_loop py document))"
proof (cases segs)
  case (PStr s)
  with assms obtain c cs where "s = c # cs" by (cases s) auto
  with PStr show ?thesis by (simp add: segment_of_info_def float_item_def)
next
  case (PDict kvs)
  with assms obtain kv rest where "kvs = kv # rest" by (cases kvs) auto
  with PDict show ?thesis by (simp add: segment_of_info_def float_item_def)
qed (use assms in auto)

section \<open>The document in closed form\<close>

lemma concat_map_filter:
  "(\<And>x. x \<in> set xs \<Longrightarrow> f x = (if P x then [g x] else [])) \<Longrightarrow>
   concat (map f xs) = map g (filter P xs)"
  by (induction xs) simp_all

lemma transcribe_result_loop:
  assumes "transcribe_result py result = Inr doc"
  shows "segments_loop py \<lparr>segments = []\<rparr> (segment_infos result) = Inr doc"
proof -
  from assms obtain has where has: "py_contains ''segments'' result = Inr has"
    by (auto simp: transcribe_result_def and_then_eq_Inr)
  show ?thesis
  proof (cases has)
    case False
    with has assms have "doc = \<lparr>segments = []\<rparr>"
      by (auto simp: transcribe_result_def)
    moreover from False has have "segment_infos result = []"
      by (auto simp: segment_infos_def dest: py_contains_getitem)
    ultimately show ?thesis by simp
  next
    case True
    with has assms obtain segs where segs: "py_getitem result ''segments'' = Inr segs"
      by (auto simp: transcribe_result_def and_then_eq_Inr)
    show ?thesis
    proof (cases "py_truthy segs")
      case False
      with True has segs assms have "doc = \<lparr>segments = []\<rparr>"
        by (auto simp: transcribe_result_def)
      moreover from False segs have "segment_infos result = []"
        by (auto simp: segment_infos_def split: sum.splits dest: py_iter_falsy)
      ultimately show ?thesis by simp
    next
      case truthy: True
      with True has segs assms obtain infos where
        infos: "py_iter segs = Inr infos" and
        loop: "segments_loop py \<lparr>segments = []\<rparr> infos = Inr doc"
        by (auto simp: transcribe_result_def and_then_eq_Inr)
      from segs infos have "segment_infos result = infos"
        by (simp add: segment_infos_def)
      with loop show ?thesis by simp
    qed
  qed
qed

lemma transcribe_result_readable_segments:
  assumes "transcribe_result py result = Inr doc"
  shows "list_all (readable_segment py) (segment_infos result)"
  using transcribe_result_loop [OF assms]
    segments_loop_returns [of py "\<lparr>segments = []\<rparr>" "segment_infos result"]
  by simp

lemma float_item_input_span:
  "float_item py entry ''start'' = Inr s \<Longrightarrow> float_item py entry ''end'' = Inr e0 \<Longrightarrow>
   input_span py entry = \<lparr>tf_start = s, tf_end = e0\<rparr>"
  by (simp add: input_span_def)

lemma built_words_eq:
  assumes "readable_word py we"
  shows "built_words py we =
    (if trimmed_word py we = [] then []
     else [\<lparr>w_text = trimmed_word py we, w_time = corrected_span py we\<rparr>])"
proof -
  from assms obtain r where r: "word_of_entry py we = Inr r"
    using word_of_entry_returns [of py we] by (auto simp: returns_iff)
  show ?thesis
  proof (cases r)
    case None
    with r show ?thesis by (simp add: built_words_def word_of_entry_None)
  next
    case (Some word)
    with r have w: "word_of_entry py we = Inr (Some word)" by simp
    from word_of_entry_Some(1) [OF w] obtain s e0 where
      "float_item py we ''start'' = Inr s" "float_item py we ''end'' = Inr e0"
      "word = \<lparr>w_text = trimmed_word py we,
               w_time = \<lparr>tf_start = s, tf_end = (if s = e0 then float_add py s 0.01 else e0)\<rparr>\<rparr>"
      by blast
    with w word_of_entry_Some(2) [OF w] show ?thesis
      by (simp add: built_words_def corrected_span_def float_item_input_span)
  qed
qed

lemma built_segments_eq:
  assumes "readable_segment py si"
  shows "built_segments py si =
    (if has_word_list si
     then [\<lparr>s_time = corrected_span py si,
            lines = [\<lparr>l_time = corrected_span py si,
                      words = concat (map (built_words py) (word_list si))\<rparr>]\<rparr>]
     else [])"
proof -
  from assms obtain r where r: "segment_of_info py si = Inr r"
    using segment_of_info_returns [of py si] by (auto simp: returns_iff)
  show ?thesis
  proof (cases r)
    case None
    with r show ?thesis by (simp add: built_segments_def segment_of_info_None)
  next
    case (Some segment)
    with r have seg: "segment_of_info py si = Inr (Some segment)" by simp
    from segment_of_info_Some(2) [OF seg] obtain s e0 where
      "float_item py si ''start'' = Inr s" "float_item py si ''end'' = Inr e0"
      "s_time segment = \<lparr>tf_start = s, tf_end = (if s = e0 then float_add py s 0.01 else e0)\<rparr>"
      by blast
    then have "s_time segment = corrected_span py si"
      by (simp add: corrected_span_def float_item_input_span)
    with segment_of_info_Some(1,3) [OF seg] seg show ?thesis
      by (simp add: built_segments_def)
  qed
qed

lemma readable_segment_words:
  "readable_segment py si \<Longrightarrow> has_word_list si \<Longrightarrow> we \<in> set (word_list si) \<Longrightarrow>
   readable_word py we"
  by (simp add: readable_segment_def list_all_iff)

lemma built_segments_for:
  assumes "readable_segment py si"
  shows "built_segments py si = (if has_word_list si then [segment_for py si] else [])"
proof (cases "has_word_list si")
  case False
  with built_segments_eq [OF assms] show ?thesis by simp
next
  case True
  have "concat (map (built_words py) (word_list si)) =
        map (word_for py) (filter (\<lambda>we. trimmed_word py we \<noteq> []) (word_list si))"
    by (rule concat_map_filter)
       (simp add: built_words_eq [OF readable_segment_words [OF assms True]] word_for_def)
  with built_segments_eq [OF assms] True show ?thesis by (simp add: segment_for_def)
qed

lemma transcribe_result_segments:
  assumes "transcribe_result py result = Inr doc"
  shows "segments doc = map (segment_for py) (filter has_word_list (segment_infos result))"
proof -
  have "concat (map (built_segments py) (segment_infos result)) =
        map (segment_for py) (filter has_word_list (segment_infos result))"
    using transcribe_result_readable_segments [OF assms]
    by (intro concat_map_filter) (simp add: list_all_iff built_segments_for)
  with transcribe_result_built [OF assms] show ?thesis by simp
qed

section \<open>Trimming\<close>

lemma dropWhile_unchanged: "xs = [] \<or> \<not> P (hd xs) \<Longrightarrow> dropWhile P xs = xs"
  by (cases xs) auto

lemma trailing_dropped_head:
  assumes "xs = [] \<or> \<not> P (hd xs)"
  shows "rev (dropWhile P (rev xs)) = [] \<or> \<not> P (hd (rev (dropWhile P (rev xs))))"
proof -
  define u where "u = rev (dropWhile P (rev xs))"
  have "rev (rev xs) = rev (takeWhile P (rev xs) @ dropWhile P (rev xs))"
    by (simp only: takeWhile_dropWhile_id)
  then have xs: "xs = u @ rev (takeWhile P (rev xs))"
    by (simp only: rev_rev_ident rev_append u_def)
  show ?thesis
  proof (cases u)
    case Nil
    then show ?thesis by (simp add: u_def)
  next
    case (Cons a list)
    with xs have "hd xs = hd u" by (metis hd_append2 list.distinct(1))
    moreover from Cons xs have "xs \<noteq> []" by auto
    ultimately show ?thesis using assms by (simp add: u_def)
  qed
qed

lemma strip_strip: "strip (strip s) = strip s"
proof -
  define t where "t = dropWhile isspace s"
  have t: "t = [] \<or> \<not> isspace (hd t)" unfolding t_def by (metis hd_dropWhile)
  have u: "strip s = rev (dropWhile isspace (rev t))" by (simp add: strip_def t_def)
  have "dropWhile isspace (strip s) = strip s"
    unfolding u using trailing_dropped_head [of t isspace, OF t] by (rule dropWhile_unchanged)
  then have "strip (strip s) = rev (dropWhile isspace (rev (strip s)))"
    by (simp add: strip_def [of "strip s"])
  also have "\<dots> = rev (dropWhile isspace (dropWhile isspace (rev t)))" by (simp add: u)
  also have "\<dots> = strip s" by (simp add: u)
  finally show ?thesis .
qed

lemma strip_Nil [simp]: "strip [] = []"
  by (simp add: strip_def)

lemma strip_trimmed_word: "strip (trimmed_word py we) = trimmed_word py we"
  by (cases "py_getitem we ''word''") (simp_all add: trimmed_word_def strip_strip)

section \<open>Further facts about the result\<close>

lemma transcribe_result_returns:
  "returns (transcribe_result py result) \<longleftrightarrow> readable_result py result"
proof (cases "py_contains ''segments'' result")
  case (Inl e)
  then show ?thesis by (simp add: transcribe_result_def readable_result_def)
next
  case (Inr has)
  show ?thesis
  proof (cases has)
    case False
    with Inr show ?thesis by (simp add: transcribe_result_def readable_result_def)
  next
    case True
    show ?thesis
    proof (cases "py_getitem result ''segments''")
      case (Inl e)
      with Inr True show ?thesis by (simp add: transcribe_result_def readable_result_def)
    next
      case segs: (Inr segs)
      show ?thesis
      proof (cases "py_truthy segs")
        case False
        with Inr True segs show ?thesis by (simp add: transcribe_result_def readable_result_def)
      next
        case truthy: True
        show ?thesis
        proof (cases "is_list segs")
          case False
          with truthy_not_list [OF truthy False] Inr True segs truthy show ?thesis
            by (simp add: transcribe_result_def readable_result_def)
        next
          case True
          then obtain infos where "segs = PList infos" by (cases segs) auto
          with Inr \<open>has\<close> segs truthy show ?thesis
            by (simp add: transcribe_result_def readable_result_def segment_infos_def
                  segments_loop_returns)
        qed
      qed
    qed
  qed
qed

lemma built_words_concat:
  assumes "readable_segment py si" "has_word_list si"
  shows "concat (map (built_words py) (word_list si)) =
         map (word_for py) (filter (\<lambda>we. trimmed_word py we \<noteq> []) (word_list si))"
  by (rule concat_map_filter)
     (simp add: built_words_eq [OF readable_segment_words [OF assms]] word_for_def)

lemma corrected_span_increasing_iff:
  "tf_start (corrected_span py entry) < tf_end (corrected_span py entry) \<longleftrightarrow>
   increasing_when_built py entry"
  by (auto simp: corrected_span_def increasing_when_built_def Let_def)

lemma corrected_span_unchanged:
  "tf_start (input_span py entry) < tf_end (input_span py entry) \<Longrightarrow>
   corrected_span py entry = input_span py entry"
  by (simp add: corrected_span_def Let_def)

lemma corrected_span_degenerate:
  "float_item py entry ''start'' = Inr s \<Longrightarrow> float_item py entry ''end'' = Inr s \<Longrightarrow>
   corrected_span py entry = \<lparr>tf_start = s, tf_end = float_add py s 0.01\<rparr>"
  by (simp add: corrected_span_def Let_def input_span_def)

text \<open>The definitions that evaluating \<open>transcribe_result\<close> on a closed input unfolds, and
  those that reading the input unfolds.\<close>

lemmas eval_defs = transcribe_result_def segment_of_info_def float_item_def no_word_data_def
  word_of_entry_def strip_def isspace_def Let_def plain_def

lemmas read_defs = readable_result_def readable_segment_def readable_word_def has_number_def
  numeric_def has_key_def has_word_list_def word_list_def trimmed_word_def segment_infos_def

lemmas span_defs = input_span_def float_item_def segment_infos_def word_list_def
  trimmed_word_def strip_def isspace_def

lemmas scenario_2_defs = scenario_2_def scenario_2_segment_def scenario_2_word_def

lemma kept_segment:
  assumes "transcribe_result py result = Inr doc" "seg \<in> set (segments doc)"
  obtains si where "si \<in> set (segment_infos result)" "has_word_list si"
    "readable_segment py si" "seg = segment_for py si"
proof -
  from transcribe_result_segments [OF assms(1)] assms(2)
  obtain si where "si \<in> set (segment_infos result)" "has_word_list si" "seg = segment_for py si"
    by auto
  moreover with transcribe_result_readable_segments [OF assms(1)]
  have "readable_segment py si" by (simp add: list_all_iff)
  ultimately show ?thesis using that by blast
qed

lemma readable_segment_kept:
  assumes "transcribe_result py result = Inr doc" "si \<in> set (segment_infos result)"
    "has_word_list si"
  shows "segment_for py si \<in> set (segments doc)"
  using transcribe_result_segments [OF assms(1)] assms(2,3) by simp

lemma segment_for_texts:
  "map (\<lambda>line. map w_text (words line)) (lines (segment_for py si)) =
   [filter (\<lambda>t. t \<noteq> []) (map (trimmed_word py) (word_list si))]"
  by (simp add: segment_for_def word_for_def filter_map comp_def)

lemma segment_for_line_times:
  "map l_time (lines (segment_for py si)) = [s_time (segment_for py si)]"
  by (simp add: segment_for_def)

lemma words_loop_append:
  "words_loop py line (xs @ ys) =
     (case words_loop py line xs of Inl e \<Rightarrow> Inl e | Inr line' \<Rightarrow> words_loop py line' ys)"
proof (induction xs arbitrary: line)
  case Nil
  show ?case by simp
next
  case (Cons we xs)
  show ?case
  proof (cases "word_of_entry py we")
    case (Inl e)
    then show ?thesis by simp
  next
    case (Inr r)
    with Cons.IH show ?thesis by (cases r) simp_all
  qed
qed

lemma segments_loop_cong:
  assumes "segment_of_info py x = segment_of_info py y"
  shows "segments_loop py document (before @ x # rest) =
         segments_loop py document (before @ y # rest)"
proof (induction before arbitrary: document)
  case Nil
  from assms show ?case by simp
next
  case (Cons a before)
  show ?case
  proof (cases "segment_of_info py a")
    case (Inl e)
    then show ?thesis by simp
  next
    case (Inr r)
    with Cons.IH show ?thesis by (cases r) simp_all
  qed
qed

lemma segment_of_info_words_cong:
  assumes "\<And>line. words_loop py line ws = words_loop py line ws'"
  shows "segment_of_info py (PDict ((''words'', PList ws) # kvs)) =
         segment_of_info py (PDict ((''words'', PList ws') # kvs))"
proof -
  have "float_item py (PDict ((''words'', PList ws) # kvs)) key =
        float_item py (PDict ((''words'', PList ws') # kvs)) key"
    if "key \<noteq> ''words''" for key
    using that by (simp add: float_item_def)
  then have "float_item py (PDict ((''words'', PList ws) # kvs)) ''start'' =
        float_item py (PDict ((''words'', PList ws') # kvs)) ''start''"
    "float_item py (PDict ((''words'', PList ws) # kvs)) ''end'' =
        float_item py (PDict ((''words'', PList ws') # kvs)) ''end''"
    by simp_all
  moreover have "no_word_data (PDict ((''words'', PList ws) # kvs)) = Inr False"
    "no_word_data (PDict ((''words'', PList ws') # kvs)) = Inr False"
    by (simp_all add: no_word_data_def)
  ultimately show ?thesis
    by (simp add: segment_of_info_def assms)
qed

lemma scenario_2_result:
  "transcribe_result plain scenario_2 =
     Inr \<lparr>segments =
       [\<lparr>s_time = \<lparr>tf_start = 1, tf_end = 1.01\<rparr>,
         lines = [\<lparr>l_time = \<lparr>tf_start = 1, tf_end = 1.01\<rparr>,
                   words = [\<lparr>w_text = ''hi'',
                             w_time = \<lparr>tf_start = 1, tf_end = 1.01\<rparr>\<rparr>]\<rparr>]\<rparr>]\<rparr>"
  by (simp add: scenario_2_defs eval_defs)

section \<open>The claims\<close>

text \<open>
  C1, as amended. On every input that \<open>transcribe\<close> reads without an exception, which
  includes every well-formed input, it returns a Document with exactly one Segment for each
  segment record whose \<open>words\<close> entry is present and a list, in the order of the records.
  A record whose \<open>words\<close> entry is absent or not a list adds no Segment.
\<close>

theorem segments_kept_for_word_lists:
  assumes "readable_result py result"
  shows "\<exists>doc. transcribe_result py result = Inr doc \<and>
           segments doc = map (segment_for py) (filter has_word_list (segment_infos result)) \<and>
           length (segments doc) = length (filter has_word_list (segment_infos result))"
proof -
  from assms obtain doc where doc: "transcribe_result py result = Inr doc"
    using transcribe_result_returns [of py result] by (auto simp: returns_iff)
  from transcribe_result_segments [OF doc] doc show ?thesis by simp
qed

theorem segments_kept_for_word_lists_witness:
  "readable_result plain scenario_4 \<and>
   length (segment_infos scenario_4) = 3 \<and>
   length (filter has_word_list (segment_infos scenario_4)) = 2 \<and>
   (\<exists>doc. transcribe_result plain scenario_4 = Inr doc \<and> length (segments doc) = 2)"
proof -
  have r: "readable_result plain scenario_4"
    by (simp add: scenario_4_def read_defs strip_def isspace_def)
  have n: "length (segment_infos scenario_4) = 3"
    "length (filter has_word_list (segment_infos scenario_4)) = 2"
    by (simp_all add: scenario_4_def read_defs)
  from segments_kept_for_word_lists [OF r] n r show ?thesis by auto
qed

text \<open>
  C1 as stated fails on scenario 3 of the spec: the input has one segment record, which has
  no \<open>words\<close> entry, and the Document returned has no Segment.
\<close>

theorem scenario_3_segment_dropped:
  "length (segment_infos scenario_3) = 1 \<and>
   transcribe_result plain scenario_3 = Inr \<lparr>segments = []\<rparr>"
  by (simp add: scenario_3_def eval_defs segment_infos_def)

text \<open>
  C2, as amended. \<open>transcribe\<close> returns a Document, raising nothing, on every readable
  result: one with no \<open>segments\<close> entry or a false one, or one whose \<open>segments\<close> is a list
  of dictionaries, each with a \<open>start\<close> and an \<open>end\<close> that \<open>float\<close> converts and with
  either a word list whose records each have a \<open>word\<close> entry and, unless it trims to
  nothing, a convertible \<open>start\<close> and \<open>end\<close>, or no usable word list and a \<open>text\<close>
  entry. So a missing or non-list \<open>words\<close> and a \<open>word\<close> that is not a string are
  absorbed. Conversely, whenever a Document is returned, every segment record visited has a
  convertible \<open>start\<close> and \<open>end\<close>, and every record of its word list has a \<open>word\<close>
  entry and, unless it trims to nothing, a convertible \<open>start\<close> and \<open>end\<close>: where one
  of these is missing or not numeric, an exception is raised.
\<close>

theorem readable_result_returns:
  "(readable_result py result \<longrightarrow> (\<exists>doc. transcribe_result py result = Inr doc)) \<and>
   ((\<exists>doc. transcribe_result py result = Inr doc) \<longrightarrow>
      (\<forall>si\<in>set (segment_infos result).
         has_number py si ''start'' \<and> has_number py si ''end'' \<and>
         (\<forall>we\<in>set (word_list si).
            has_key we ''word'' \<and>
            (trimmed_word py we \<noteq> [] \<longrightarrow>
               has_number py we ''start'' \<and> has_number py we ''end''))))"
proof (intro conjI impI ballI)
  assume "readable_result py result"
  then show "\<exists>doc. transcribe_result py result = Inr doc"
    using transcribe_result_returns [of py result] by (simp add: returns_iff)
next
  fix si
  assume "\<exists>doc. transcribe_result py result = Inr doc" and si: "si \<in> set (segment_infos result)"
  then obtain doc where "transcribe_result py result = Inr doc" by blast
  from transcribe_result_readable_segments [OF this] si
  have r: "readable_segment py si" by (simp add: list_all_iff)
  then show "has_number py si ''start''" "has_number py si ''end''"
    by (simp_all add: readable_segment_def)
  fix we
  assume we: "we \<in> set (word_list si)"
  then have "has_word_list si" by (auto simp: word_list_def has_word_list_def split: sum.splits pyval.splits)
  from readable_segment_words [OF r this we]
  show "has_key we ''word''"
    and "trimmed_word py we \<noteq> [] \<Longrightarrow> has_number py we ''start''"
    and "trimmed_word py we \<noteq> [] \<Longrightarrow> has_number py we ''end''"
    by (simp_all add: readable_word_def)
qed

theorem readable_result_returns_witness:
  "readable_result plain scenario_4 \<and>
   (\<exists>doc. transcribe_result plain scenario_4 = Inr doc) \<and>
   length (segment_infos scenario_4) = 3 \<and>
   list_all (\<lambda>si. has_number plain si ''start'' \<and> has_number plain si ''end'')
     (segment_infos scenario_4)"
proof -
  have r: "readable_result plain scenario_4"
    by (simp add: scenario_4_def read_defs strip_def isspace_def)
  have n: "length (segment_infos scenario_4) = 3"
    by (simp add: scenario_4_def segment_infos_def)
  from readable_result_returns [of plain scenario_4] r n show ?thesis
    by (simp add: list_all_iff)
qed

text \<open>
  C2 as stated fails: a segment record without \<open>start\<close> raises KeyError, one whose
  \<open>end\<close> is \<open>None\<close> raises TypeError, one with neither \<open>words\<close> nor \<open>text\<close> raises
  KeyError when the debug message is formatted, and a word record without \<open>word\<close>, or
  with a word but no \<open>start\<close>, raises KeyError.
\<close>

theorem transcribe_raises_on_malformed_records:
  "transcribe_result plain
     (PDict [(''segments'', PList
        [PDict [(''end'', PFloat 2.0), (''text'', PStr ''um''), (''words'', PList [])]])])
   = Inl (KeyError ''start'') \<and>
   transcribe_result plain
     (PDict [(''segments'', PList
        [PDict [(''start'', PFloat 0.0), (''end'', PNone), (''text'', PStr ''um''),
                (''words'', PList [])]])])
   = Inl TypeError \<and>
   transcribe_result plain
     (PDict [(''segments'', PList [PDict [(''start'', PFloat 0.0), (''end'', PFloat 2.0)]])])
   = Inl (KeyError ''text'') \<and>
   transcribe_result plain
     (PDict [(''segments'', PList
        [PDict [(''start'', PFloat 0.0), (''end'', PFloat 2.0), (''text'', PStr ''um''),
                (''words'', PList [PDict [(''start'', PFloat 0.0), (''end'', PFloat 1.0)]])]])])
   = Inl (KeyError ''word'') \<and>
   transcribe_result plain
     (PDict [(''segments'', PList
        [PDict [(''start'', PFloat 0.0), (''end'', PFloat 2.0), (''text'', PStr ''um''),
                (''words'', PList [PDict [(''word'', PStr ''um''), (''end'', PFloat 1.0)]])]])])
   = Inl (KeyError ''start'')"
  by (simp add: eval_defs)

text \<open>
  C3, as amended. In the Document returned by \<open>transcribe\<close>, the TimeFragment of a Segment
  or of a Word has its end strictly after its start exactly when the record it was built
  from has its coerced start before its coerced end, or has the two equal and the sum
  \<open>start + 0.01\<close>, as lines 43 and 62 compute it in floats, greater than the start; each
  Line has the TimeFragment of its Segment. So every TimeFragment of the Document has its
  end after its start if this holds of every segment record and of every word record with
  a non-empty trimmed text; it does not hold of a record whose end lies before its start.
\<close>

theorem spans_increasing_iff_input_allows:
  assumes "transcribe_result py result = Inr doc"
  shows "map (\<lambda>seg. tf_start (s_time seg) < tf_end (s_time seg)) (segments doc) =
           map (increasing_when_built py) (filter has_word_list (segment_infos result)) \<and>
         (\<forall>seg\<in>set (segments doc). map l_time (lines seg) = [s_time seg]) \<and>
         map (\<lambda>seg. map (\<lambda>line. map (\<lambda>w. tf_start (w_time w) < tf_end (w_time w))
                                   (words line)) (lines seg)) (segments doc) =
           map (\<lambda>si. [map (increasing_when_built py)
                        (filter (\<lambda>we. trimmed_word py we \<noteq> []) (word_list si))])
             (filter has_word_list (segment_infos result)) \<and>
         ((\<forall>si\<in>set (segment_infos result).
             increasing_when_built py si \<and>
             (\<forall>we\<in>set (word_list si). trimmed_word py we \<noteq> [] \<longrightarrow>
                increasing_when_built py we)) \<longrightarrow>
          (\<forall>seg\<in>set (segments doc).
             tf_start (s_time seg) < tf_end (s_time seg) \<and>
             (\<forall>line\<in>set (lines seg).
                tf_start (l_time line) < tf_end (l_time line) \<and>
                (\<forall>w\<in>set (words line). tf_start (w_time w) < tf_end (w_time w)))))"
proof (intro conjI impI)
  note doc = transcribe_result_segments [OF assms]
  show "map (\<lambda>seg. tf_start (s_time seg) < tf_end (s_time seg)) (segments doc) =
      map (increasing_when_built py) (filter has_word_list (segment_infos result))"
    by (simp add: doc segment_for_def corrected_span_increasing_iff)
  show "\<forall>seg\<in>set (segments doc). map l_time (lines seg) = [s_time seg]"
    by (auto simp: doc segment_for_line_times)
  show "map (\<lambda>seg. map (\<lambda>line. map (\<lambda>w. tf_start (w_time w) < tf_end (w_time w))
                                   (words line)) (lines seg)) (segments doc) =
      map (\<lambda>si. [map (increasing_when_built py)
                   (filter (\<lambda>we. trimmed_word py we \<noteq> []) (word_list si))])
        (filter has_word_list (segment_infos result))"
    by (simp add: doc segment_for_def word_for_def corrected_span_increasing_iff)
next
  assume ok: "\<forall>si\<in>set (segment_infos result).
             increasing_when_built py si \<and>
             (\<forall>we\<in>set (word_list si). trimmed_word py we \<noteq> [] \<longrightarrow>
                increasing_when_built py we)"
  show "\<forall>seg\<in>set (segments doc).
             tf_start (s_time seg) < tf_end (s_time seg) \<and>
             (\<forall>line\<in>set (lines seg).
                tf_start (l_time line) < tf_end (l_time line) \<and>
                (\<forall>w\<in>set (words line). tf_start (w_time w) < tf_end (w_time w)))"
  proof
    fix seg
    assume "seg \<in> set (segments doc)"
    with assms obtain si where si: "si \<in> set (segment_infos result)"
      and seg: "seg = segment_for py si"
      by (rule kept_segment)
    from si ok have s: "tf_start (corrected_span py si) < tf_end (corrected_span py si)"
      by (simp add: corrected_span_increasing_iff)
    have "tf_start (w_time w) < tf_end (w_time w)"
      if "w \<in> set (map (word_for py) (filter (\<lambda>we. trimmed_word py we \<noteq> []) (word_list si)))"
      for w
    proof -
      from that obtain we where we: "we \<in> set (word_list si)" "trimmed_word py we \<noteq> []"
        and w: "w = word_for py we"
        by auto
      from si we ok have "increasing_when_built py we" by blast
      with w show ?thesis by (simp add: word_for_def corrected_span_increasing_iff)
    qed
    with s seg show "tf_start (s_time seg) < tf_end (s_time seg) \<and>
             (\<forall>line\<in>set (lines seg).
                tf_start (l_time line) < tf_end (l_time line) \<and>
                (\<forall>w\<in>set (words line). tf_start (w_time w) < tf_end (w_time w)))"
      by (simp add: segment_for_def)
  qed
qed

theorem spans_increasing_iff_input_allows_witness:
  "transcribe_result plain scenario_2 =
     Inr \<lparr>segments =
       [\<lparr>s_time = \<lparr>tf_start = 1, tf_end = 1.01\<rparr>,
         lines = [\<lparr>l_time = \<lparr>tf_start = 1, tf_end = 1.01\<rparr>,
                   words = [\<lparr>w_text = ''hi'',
                             w_time = \<lparr>tf_start = 1, tf_end = 1.01\<rparr>\<rparr>]\<rparr>]\<rparr>]\<rparr> \<and>
   map (increasing_when_built plain) (filter has_word_list (segment_infos scenario_2)) =
     [True] \<and>
   map (\<lambda>si. map (increasing_when_built plain) (word_list si)) (segment_infos scenario_2) =
     [[True]] \<and>
   transcribe_result plain reversed_spans =
     Inr \<lparr>segments =
       [\<lparr>s_time = \<lparr>tf_start = 2, tf_end = 1\<rparr>,
         lines = [\<lparr>l_time = \<lparr>tf_start = 2, tf_end = 1\<rparr>,
                   words = [\<lparr>w_text = ''no'',
                             w_time = \<lparr>tf_start = 1.5, tf_end = 1.2\<rparr>\<rparr>]\<rparr>]\<rparr>]\<rparr> \<and>
   map (increasing_when_built plain) (filter has_word_list (segment_infos reversed_spans)) =
     [False] \<and>
   map (\<lambda>si. map (increasing_when_built plain) (word_list si)) (segment_infos reversed_spans) =
     [[False]]"
proof -
  have run2: "transcribe_result plain scenario_2 =
     Inr \<lparr>segments =
       [\<lparr>s_time = \<lparr>tf_start = 1, tf_end = 1.01\<rparr>,
         lines = [\<lparr>l_time = \<lparr>tf_start = 1, tf_end = 1.01\<rparr>,
                   words = [\<lparr>w_text = ''hi'',
                             w_time = \<lparr>tf_start = 1, tf_end = 1.01\<rparr>\<rparr>]\<rparr>]\<rparr>]\<rparr>"
    by (simp add: scenario_2_defs eval_defs)
  have runr: "transcribe_result plain reversed_spans =
     Inr \<lparr>segments =
       [\<lparr>s_time = \<lparr>tf_start = 2, tf_end = 1\<rparr>,
         lines = [\<lparr>l_time = \<lparr>tf_start = 2, tf_end = 1\<rparr>,
                   words = [\<lparr>w_text = ''no'',
                             w_time = \<lparr>tf_start = 1.5, tf_end = 1.2\<rparr>\<rparr>]\<rparr>]\<rparr>]\<rparr>"
    by (simp add: reversed_spans_def eval_defs)
  have w2: "map (\<lambda>si. map (increasing_when_built plain) (word_list si))
      (segment_infos scenario_2) = [[True]]"
    by (simp add: scenario_2_defs span_defs increasing_when_built_def plain_def)
  have wr: "map (\<lambda>si. map (increasing_when_built plain) (word_list si))
      (segment_infos reversed_spans) = [[False]]"
    by (simp add: reversed_spans_def span_defs increasing_when_built_def plain_def)
  from spans_increasing_iff_input_allows [OF run2] spans_increasing_iff_input_allows [OF runr]
    run2 runr w2 wr
  show ?thesis by simp
qed

text \<open>
  C3 as stated fails where a record's end lies before its start: only equal values are
  corrected, so the TimeFragments are built from the values as they are.
\<close>

theorem reversed_spans_kept:
  "transcribe_result plain reversed_spans =
     Inr \<lparr>segments =
       [\<lparr>s_time = \<lparr>tf_start = 2, tf_end = 1\<rparr>,
         lines = [\<lparr>l_time = \<lparr>tf_start = 2, tf_end = 1\<rparr>,
                   words = [\<lparr>w_text = ''no'',
                             w_time = \<lparr>tf_start = 1.5, tf_end = 1.2\<rparr>\<rparr>]\<rparr>]\<rparr>]\<rparr>"
  by (simp add: reversed_spans_def eval_defs)

text \<open>
  C4. Let \<open>transcribe\<close> return a Document, and let a segment record with a word list have
  a coerced start equal to its coerced end, \<open>s\<close>: then the Segment built from it is in the
  Document with the TimeFragment from \<open>s\<close> to the float sum \<open>s + 0.01\<close>, also that of its
  Line. Likewise a word record of that list with a non-empty trimmed text whose coerced
  start and end are both \<open>t\<close> gives a Word, in a Line of the Document, with the
  TimeFragment from \<open>t\<close> to the float sum \<open>t + 0.01\<close>. Nothing is rejected for its
  zero-length span.
\<close>

theorem degenerate_span_corrected:
  assumes "transcribe_result py result = Inr doc"
    and "si \<in> set (segment_infos result)" and "has_word_list si"
  shows "(float_item py si ''start'' = Inr s \<and> float_item py si ''end'' = Inr s \<longrightarrow>
            (\<exists>seg\<in>set (segments doc). built_segments py si = [seg] \<and>
               s_time seg = \<lparr>tf_start = s, tf_end = float_add py s 0.01\<rparr> \<and>
               map l_time (lines seg) = [\<lparr>tf_start = s, tf_end = float_add py s 0.01\<rparr>])) \<and>
         (we \<in> set (word_list si) \<and> trimmed_word py we \<noteq> [] \<and>
          float_item py we ''start'' = Inr t \<and> float_item py we ''end'' = Inr t \<longrightarrow>
            (\<exists>seg\<in>set (segments doc). \<exists>line\<in>set (lines seg).
               \<lparr>w_text = trimmed_word py we, w_time = \<lparr>tf_start = t, tf_end = float_add py t 0.01\<rparr>\<rparr>
                 \<in> set (words line) \<and>
               built_words py we =
                 [\<lparr>w_text = trimmed_word py we, w_time = \<lparr>tf_start = t, tf_end = float_add py t 0.01\<rparr>\<rparr>]))"
proof -
  from transcribe_result_readable_segments [OF assms(1)] assms(2)
  have r: "readable_segment py si" by (simp add: list_all_iff)
  have kept: "segment_for py si \<in> set (segments doc)"
    using assms by (rule readable_segment_kept)
  have built: "built_segments py si = [segment_for py si]"
    using built_segments_for [OF r] assms(3) by simp
  have first: "float_item py si ''start'' = Inr s \<and> float_item py si ''end'' = Inr s \<longrightarrow>
            (\<exists>seg\<in>set (segments doc). built_segments py si = [seg] \<and>
               s_time seg = \<lparr>tf_start = s, tf_end = float_add py s 0.01\<rparr> \<and>
               map l_time (lines seg) = [\<lparr>tf_start = s, tf_end = float_add py s 0.01\<rparr>])"
  proof
    assume "float_item py si ''start'' = Inr s \<and> float_item py si ''end'' = Inr s"
    then have "corrected_span py si = \<lparr>tf_start = s, tf_end = float_add py s 0.01\<rparr>"
      by (simp add: corrected_span_degenerate)
    with kept built show "\<exists>seg\<in>set (segments doc). built_segments py si = [seg] \<and>
               s_time seg = \<lparr>tf_start = s, tf_end = float_add py s 0.01\<rparr> \<and>
               map l_time (lines seg) = [\<lparr>tf_start = s, tf_end = float_add py s 0.01\<rparr>]"
      by (intro bexI [of _ "segment_for py si"]) (simp_all add: segment_for_def)
  qed
  have second: "we \<in> set (word_list si) \<and> trimmed_word py we \<noteq> [] \<and>
          float_item py we ''start'' = Inr t \<and> float_item py we ''end'' = Inr t \<longrightarrow>
            (\<exists>seg\<in>set (segments doc). \<exists>line\<in>set (lines seg).
               \<lparr>w_text = trimmed_word py we, w_time = \<lparr>tf_start = t, tf_end = float_add py t 0.01\<rparr>\<rparr>
                 \<in> set (words line) \<and>
               built_words py we =
                 [\<lparr>w_text = trimmed_word py we, w_time = \<lparr>tf_start = t, tf_end = float_add py t 0.01\<rparr>\<rparr>])"
  proof
    assume a: "we \<in> set (word_list si) \<and> trimmed_word py we \<noteq> [] \<and>
          float_item py we ''start'' = Inr t \<and> float_item py we ''end'' = Inr t"
    then have c: "corrected_span py we = \<lparr>tf_start = t, tf_end = float_add py t 0.01\<rparr>"
      by (simp add: corrected_span_degenerate)
    from a have rw: "readable_word py we"
      using readable_segment_words [OF r assms(3)] by blast
    from built_words_eq [OF rw] a c
    have bw: "built_words py we =
        [\<lparr>w_text = trimmed_word py we, w_time = \<lparr>tf_start = t, tf_end = float_add py t 0.01\<rparr>\<rparr>]"
      by simp
    from a c have "\<lparr>w_text = trimmed_word py we, w_time = \<lparr>tf_start = t, tf_end = float_add py t 0.01\<rparr>\<rparr>
        \<in> set (map (word_for py) (filter (\<lambda>we. trimmed_word py we \<noteq> []) (word_list si)))"
      by (auto simp: word_for_def intro!: image_eqI [of _ _ we])
    with kept bw show "\<exists>seg\<in>set (segments doc). \<exists>line\<in>set (lines seg).
               \<lparr>w_text = trimmed_word py we, w_time = \<lparr>tf_start = t, tf_end = float_add py t 0.01\<rparr>\<rparr>
                 \<in> set (words line) \<and>
               built_words py we =
                 [\<lparr>w_text = trimmed_word py we, w_time = \<lparr>tf_start = t, tf_end = float_add py t 0.01\<rparr>\<rparr>]"
      by (intro bexI [of _ "segment_for py si"]) (simp_all add: segment_for_def)
  qed
  from first second show ?thesis by (rule conjI)
qed

theorem degenerate_span_corrected_witness:
  "transcribe_result plain scenario_2 =
     Inr \<lparr>segments =
       [\<lparr>s_time = \<lparr>tf_start = 1, tf_end = 1.01\<rparr>,
         lines = [\<lparr>l_time = \<lparr>tf_start = 1, tf_end = 1.01\<rparr>,
                   words = [\<lparr>w_text = ''hi'',
                             w_time = \<lparr>tf_start = 1, tf_end = 1.01\<rparr>\<rparr>]\<rparr>]\<rparr>]\<rparr> \<and>
   segment_infos scenario_2 = [scenario_2_segment] \<and>
   has_word_list scenario_2_segment \<and>
   float_item plain scenario_2_segment ''start'' = Inr 1 \<and>
   float_item plain scenario_2_segment ''end'' = Inr 1 \<and>
   word_list scenario_2_segment = [scenario_2_word] \<and>
   trimmed_word plain scenario_2_word = ''hi'' \<and>
   float_item plain scenario_2_word ''start'' = Inr 1 \<and>
   float_item plain scenario_2_word ''end'' = Inr 1 \<and>
   built_segments plain scenario_2_segment =
     [\<lparr>s_time = \<lparr>tf_start = 1, tf_end = 1.01\<rparr>,
       lines = [\<lparr>l_time = \<lparr>tf_start = 1, tf_end = 1.01\<rparr>,
                 words = [\<lparr>w_text = ''hi'',
                           w_time = \<lparr>tf_start = 1, tf_end = 1.01\<rparr>\<rparr>]\<rparr>]\<rparr>] \<and>
   built_words plain scenario_2_word =
     [\<lparr>w_text = ''hi'', w_time = \<lparr>tf_start = 1, tf_end = 1.01\<rparr>\<rparr>]"
proof -
  have infos: "segment_infos scenario_2 = [scenario_2_segment]"
    by (simp add: scenario_2_def segment_infos_def)
  have hwl: "has_word_list scenario_2_segment"
    by (simp add: scenario_2_segment_def has_word_list_def)
  have ws: "word_list scenario_2_segment = [scenario_2_word]"
    by (simp add: scenario_2_segment_def word_list_def)
  have si: "float_item plain scenario_2_segment ''start'' = Inr 1"
    "float_item plain scenario_2_segment ''end'' = Inr 1"
    by (simp_all add: scenario_2_segment_def float_item_def)
  have we: "trimmed_word plain scenario_2_word = ''hi''"
    "float_item plain scenario_2_word ''start'' = Inr 1"
    "float_item plain scenario_2_word ''end'' = Inr 1"
    by (simp_all add: scenario_2_word_def float_item_def trimmed_word_def strip_def isspace_def)
  have mem: "scenario_2_segment \<in> set (segment_infos scenario_2)"
    by (simp add: infos)
  from degenerate_span_corrected
    [OF scenario_2_result mem hwl, of 1 scenario_2_word 1]
  show ?thesis
    using scenario_2_result infos hwl ws si we by auto
qed

text \<open>
  C5. In the Document returned by \<open>transcribe\<close>, every Word has a text of length at least
  1 after trimming. The texts of the Words of each Line are the trimmed \<open>word\<close> fields of
  the segment record's word records, in their order, with the empty ones left out: a word
  record that trims to nothing gives no Word, and the words around it stay in place.
\<close>

theorem words_nonempty_in_source_order:
  assumes "transcribe_result py result = Inr doc"
  shows "(\<forall>seg\<in>set (segments doc). \<forall>line\<in>set (lines seg). \<forall>w\<in>set (words line).
            1 \<le> length (strip (w_text w))) \<and>
         map (\<lambda>seg. map (\<lambda>line. map w_text (words line)) (lines seg)) (segments doc) =
         map (\<lambda>si. [filter (\<lambda>t. t \<noteq> []) (map (trimmed_word py) (word_list si))])
           (filter has_word_list (segment_infos result))"
proof
  show "\<forall>seg\<in>set (segments doc). \<forall>line\<in>set (lines seg). \<forall>w\<in>set (words line).
            1 \<le> length (strip (w_text w))"
  proof (intro ballI)
    fix seg line w
    assume "seg \<in> set (segments doc)" and line: "line \<in> set (lines seg)"
      and w: "w \<in> set (words line)"
    with assms obtain si where "seg = segment_for py si" by (auto elim: kept_segment)
    with line w obtain we where "trimmed_word py we \<noteq> []" "w = word_for py we"
      by (auto simp: segment_for_def)
    then have "strip (w_text w) \<noteq> []" by (simp add: word_for_def strip_trimmed_word)
    then show "1 \<le> length (strip (w_text w))" by (cases "strip (w_text w)") simp_all
  qed
  show "map (\<lambda>seg. map (\<lambda>line. map w_text (words line)) (lines seg)) (segments doc) =
         map (\<lambda>si. [filter (\<lambda>t. t \<noteq> []) (map (trimmed_word py) (word_list si))])
           (filter has_word_list (segment_infos result))"
    by (simp add: transcribe_result_segments [OF assms] segment_for_texts comp_def)
qed

theorem words_nonempty_in_source_order_witness:
  "transcribe_result plain scenario_4 =
     Inr \<lparr>segments =
       [\<lparr>s_time = \<lparr>tf_start = 0, tf_end = 2\<rparr>,
         lines = [\<lparr>l_time = \<lparr>tf_start = 0, tf_end = 2\<rparr>,
           words = [\<lparr>w_text = ''a'', w_time = \<lparr>tf_start = 0, tf_end = 1\<rparr>\<rparr>,
                    \<lparr>w_text = ''b'', w_time = \<lparr>tf_start = 1, tf_end = 2\<rparr>\<rparr>]\<rparr>]\<rparr>,
        \<lparr>s_time = \<lparr>tf_start = 3, tf_end = 3.01\<rparr>,
         lines = [\<lparr>l_time = \<lparr>tf_start = 3, tf_end = 3.01\<rparr>, words = []\<rparr>]\<rparr>]\<rparr> \<and>
   map (\<lambda>si. [filter (\<lambda>t. t \<noteq> []) (map (trimmed_word plain) (word_list si))])
     (filter has_word_list (segment_infos scenario_4)) = [[[''a'', ''b'']], [[]]] \<and>
   map (\<lambda>si. map (trimmed_word plain) (word_list si)) (segment_infos scenario_4) =
     [[''a'', '''', ''b''], [], []]"
proof -
  have run: "transcribe_result plain scenario_4 =
     Inr \<lparr>segments =
       [\<lparr>s_time = \<lparr>tf_start = 0, tf_end = 2\<rparr>,
         lines = [\<lparr>l_time = \<lparr>tf_start = 0, tf_end = 2\<rparr>,
           words = [\<lparr>w_text = ''a'', w_time = \<lparr>tf_start = 0, tf_end = 1\<rparr>\<rparr>,
                    \<lparr>w_text = ''b'', w_time = \<lparr>tf_start = 1, tf_end = 2\<rparr>\<rparr>]\<rparr>]\<rparr>,
        \<lparr>s_time = \<lparr>tf_start = 3, tf_end = 3.01\<rparr>,
         lines = [\<lparr>l_time = \<lparr>tf_start = 3, tf_end = 3.01\<rparr>, words = []\<rparr>]\<rparr>]\<rparr>"
    by (simp add: scenario_4_def eval_defs)
  have "map (\<lambda>si. map (trimmed_word plain) (word_list si)) (segment_infos scenario_4) =
     [[''a'', '''', ''b''], [], []]"
    by (simp add: scenario_4_def span_defs)
  with words_nonempty_in_source_order [OF run] run show ?thesis
    by simp
qed

text \<open>
  C6. If the raw result is a dictionary with no \<open>segments\<close> entry, or with an empty list
  there, \<open>transcribe\<close> returns the empty Document and raises nothing; so does the whole
  method when the model it holds returns such a result.
\<close>

theorem no_segments_empty_document:
  assumes "map_of kvs ''segments'' = None \<or> map_of kvs ''segments'' = Some (PList [])"
  shows "transcribe_result py (PDict kvs) = Inr \<lparr>segments = []\<rparr> \<and>
         (model self = Some m \<and>
          whisper_transcribe whisper m audio_path (language self) = Inr (PDict kvs) \<longrightarrow>
          fst (transcribe py whisper self calls audio_path) = Inr \<lparr>segments = []\<rparr>)"
proof -
  from assms have "transcribe_result py (PDict kvs) = Inr \<lparr>segments = []\<rparr>"
    by (auto simp: transcribe_result_def)
  then show ?thesis by (simp add: transcribe_def get_model_def)
qed

theorem no_segments_empty_document_witness:
  "map_of ([] :: (string \<times> pyval) list) ''segments'' = None \<and>
   transcribe_result plain (PDict []) = Inr \<lparr>segments = []\<rparr> \<and>
   map_of [(''segments'', PList [])] ''segments'' = Some (PList []) \<and>
   transcribe_result plain (PDict [(''segments'', PList [])]) = Inr \<lparr>segments = []\<rparr> \<and>
   model preloaded = Some () \<and>
   whisper_transcribe silent_whisper () ''a.wav'' (language preloaded) = Inr (PDict []) \<and>
   fst (transcribe plain silent_whisper preloaded [] ''a.wav'') = Inr \<lparr>segments = []\<rparr>"
  using no_segments_empty_document [of "[]" plain preloaded "()" silent_whisper "''a.wav''" "[]"]
    no_segments_empty_document [of "[(''segments'', PList [])]" plain preloaded "()"
      silent_whisper "''a.wav''" "[]"]
  by (simp add: preloaded_def silent_whisper_def)

text \<open>
  C7. Let \<open>transcribe\<close> return a Document for an input in which every segment record, and
  every word record with a non-empty trimmed text, has its coerced end strictly after its
  coerced start. Then the TimeFragments of the Segments are the coerced start and end of
  the segment records kept, each Line has the TimeFragment of its Segment, and the
  TimeFragments of the Words are the coerced start and end of the word records kept: no
  value is changed.
\<close>

theorem increasing_spans_unchanged:
  assumes "transcribe_result py result = Inr doc"
    and "\<forall>si\<in>set (segment_infos result).
           tf_start (input_span py si) < tf_end (input_span py si) \<and>
           (\<forall>we\<in>set (word_list si). trimmed_word py we \<noteq> [] \<longrightarrow>
              tf_start (input_span py we) < tf_end (input_span py we))"
  shows "map s_time (segments doc) =
           map (input_span py) (filter has_word_list (segment_infos result)) \<and>
         (\<forall>seg\<in>set (segments doc). map l_time (lines seg) = [s_time seg]) \<and>
         map (\<lambda>seg. map (\<lambda>line. map w_time (words line)) (lines seg)) (segments doc) =
           map (\<lambda>si. [map (input_span py)
                        (filter (\<lambda>we. trimmed_word py we \<noteq> []) (word_list si))])
             (filter has_word_list (segment_infos result))"
proof (intro conjI)
  note doc = transcribe_result_segments [OF assms(1)]
  have seg: "s_time (segment_for py si) = input_span py si"
    if "si \<in> set (segment_infos result)" for si
    using that assms(2) by (simp add: segment_for_def corrected_span_unchanged)
  show "map s_time (segments doc) =
      map (input_span py) (filter has_word_list (segment_infos result))"
    by (simp add: doc seg)
  show "\<forall>seg\<in>set (segments doc). map l_time (lines seg) = [s_time seg]"
    by (auto simp: doc segment_for_line_times)
  have "map (\<lambda>line. map w_time (words line)) (lines (segment_for py si)) =
        [map (input_span py) (filter (\<lambda>we. trimmed_word py we \<noteq> []) (word_list si))]"
    if "si \<in> set (segment_infos result)" for si
    using that assms(2) by (simp add: segment_for_def word_for_def corrected_span_unchanged)
  then show "map (\<lambda>seg. map (\<lambda>line. map w_time (words line)) (lines seg)) (segments doc) =
      map (\<lambda>si. [map (input_span py)
                   (filter (\<lambda>we. trimmed_word py we \<noteq> []) (word_list si))])
        (filter has_word_list (segment_infos result))"
    by (simp add: doc)
qed

theorem increasing_spans_unchanged_witness:
  "transcribe_result plain increasing_spans =
     Inr \<lparr>segments =
       [\<lparr>s_time = \<lparr>tf_start = 0.5, tf_end = 2\<rparr>,
         lines = [\<lparr>l_time = \<lparr>tf_start = 0.5, tf_end = 2\<rparr>,
           words = [\<lparr>w_text = ''so'', w_time = \<lparr>tf_start = 0.5, tf_end = 1\<rparr>\<rparr>,
                    \<lparr>w_text = ''it'', w_time = \<lparr>tf_start = 1, tf_end = 2\<rparr>\<rparr>]\<rparr>]\<rparr>]\<rparr> \<and>
   map (input_span plain) (filter has_word_list (segment_infos increasing_spans)) =
     [\<lparr>tf_start = 0.5, tf_end = 2\<rparr>] \<and>
   map (\<lambda>si. map (input_span plain) (word_list si)) (segment_infos increasing_spans) =
     [[\<lparr>tf_start = 0.5, tf_end = 1\<rparr>, \<lparr>tf_start = 1, tf_end = 2\<rparr>]]"
proof -
  have run: "transcribe_result plain increasing_spans =
     Inr \<lparr>segments =
       [\<lparr>s_time = \<lparr>tf_start = 0.5, tf_end = 2\<rparr>,
         lines = [\<lparr>l_time = \<lparr>tf_start = 0.5, tf_end = 2\<rparr>,
           words = [\<lparr>w_text = ''so'', w_time = \<lparr>tf_start = 0.5, tf_end = 1\<rparr>\<rparr>,
                    \<lparr>w_text = ''it'', w_time = \<lparr>tf_start = 1, tf_end = 2\<rparr>\<rparr>]\<rparr>]\<rparr>]\<rparr>"
    by (simp add: increasing_spans_def eval_defs)
  have spans: "\<forall>si\<in>set (segment_infos increasing_spans).
           tf_start (input_span plain si) < tf_end (input_span plain si) \<and>
           (\<forall>we\<in>set (word_list si). trimmed_word plain we \<noteq> [] \<longrightarrow>
              tf_start (input_span plain we) < tf_end (input_span plain we))"
    by (simp add: increasing_spans_def span_defs)
  have "map (\<lambda>si. map (input_span plain) (word_list si)) (segment_infos increasing_spans) =
     [[\<lparr>tf_start = 0.5, tf_end = 1\<rparr>, \<lparr>tf_start = 1, tf_end = 2\<rparr>]]"
    by (simp add: increasing_spans_def span_defs)
  with increasing_spans_unchanged [OF run spans] run show ?thesis
    by simp
qed

text \<open>
  C8. In the Document returned by \<open>transcribe\<close>, every Segment has exactly one Line, whose
  TimeFragment is that of the Segment. The Words of that Line are what the word records of
  the segment record contribute, one Word or none each, put together in the order of the
  records.
\<close>

theorem one_line_per_segment:
  assumes "transcribe_result py result = Inr doc"
  shows "(\<forall>seg\<in>set (segments doc). \<exists>line. lines seg = [line] \<and> l_time line = s_time seg) \<and>
         map (\<lambda>seg. map words (lines seg)) (segments doc) =
           map (\<lambda>si. [concat (map (built_words py) (word_list si))])
             (filter has_word_list (segment_infos result)) \<and>
         (\<forall>we. length (built_words py we) \<le> 1)"
proof (intro conjI)
  note doc = transcribe_result_segments [OF assms]
  show "\<forall>seg\<in>set (segments doc). \<exists>line. lines seg = [line] \<and> l_time line = s_time seg"
    by (auto simp: doc segment_for_def)
  have "map words (lines (segment_for py si)) = [concat (map (built_words py) (word_list si))]"
    if "si \<in> set (segment_infos result)" "has_word_list si" for si
  proof -
    from transcribe_result_readable_segments [OF assms] that(1)
    have "readable_segment py si" by (simp add: list_all_iff)
    from built_words_concat [OF this that(2)] show ?thesis by (simp add: segment_for_def)
  qed
  then show "map (\<lambda>seg. map words (lines seg)) (segments doc) =
      map (\<lambda>si. [concat (map (built_words py) (word_list si))])
        (filter has_word_list (segment_infos result))"
    by (simp add: doc)
  show "\<forall>we. length (built_words py we) \<le> 1"
    by (simp add: built_words_def split: sum.splits option.splits)
qed

theorem one_line_per_segment_witness:
  "transcribe_result plain unsorted_words =
     Inr \<lparr>segments =
       [\<lparr>s_time = \<lparr>tf_start = 0, tf_end = 2\<rparr>,
         lines = [\<lparr>l_time = \<lparr>tf_start = 0, tf_end = 2\<rparr>,
           words = [\<lparr>w_text = ''b'', w_time = \<lparr>tf_start = 1, tf_end = 2\<rparr>\<rparr>,
                    \<lparr>w_text = ''a'', w_time = \<lparr>tf_start = 0, tf_end = 1\<rparr>\<rparr>]\<rparr>]\<rparr>]\<rparr> \<and>
   map (\<lambda>si. map (built_words plain) (word_list si)) (segment_infos unsorted_words) =
     [[[\<lparr>w_text = ''b'', w_time = \<lparr>tf_start = 1, tf_end = 2\<rparr>\<rparr>],
       [\<lparr>w_text = ''a'', w_time = \<lparr>tf_start = 0, tf_end = 1\<rparr>\<rparr>]]]"
proof -
  have run: "transcribe_result plain unsorted_words =
     Inr \<lparr>segments =
       [\<lparr>s_time = \<lparr>tf_start = 0, tf_end = 2\<rparr>,
         lines = [\<lparr>l_time = \<lparr>tf_start = 0, tf_end = 2\<rparr>,
           words = [\<lparr>w_text = ''b'', w_time = \<lparr>tf_start = 1, tf_end = 2\<rparr>\<rparr>,
                    \<lparr>w_text = ''a'', w_time = \<lparr>tf_start = 0, tf_end = 1\<rparr>\<rparr>]\<rparr>]\<rparr>]\<rparr>"
    by (simp add: unsorted_words_def eval_defs)
  have "map (\<lambda>si. map (built_words plain) (word_list si)) (segment_infos unsorted_words) =
     [[[\<lparr>w_text = ''b'', w_time = \<lparr>tf_start = 1, tf_end = 2\<rparr>\<rparr>],
       [\<lparr>w_text = ''a'', w_time = \<lparr>tf_start = 0, tf_end = 1\<rparr>\<rparr>]]]"
    by (simp add: unsorted_words_def built_words_def eval_defs segment_infos_def word_list_def)
  with one_line_per_segment [OF run] run show ?thesis
    by simp
qed

text \<open>
  Where \<open>whisper.load_model\<close> itself raises, the exception is caught and wrapped: with no
  model supplied and the package imported, \<open>_get_model\<close> raises a RuntimeError whose message
  names the model size and the device and ends with the text of the exception,
  \<open>transcribe\<close> raises the same, and \<open>load_model\<close> has been called exactly once more.
\<close>

lemma load_model_failure_wrapped:
  assumes "model self = None" and "whisper_import whisper = None"
    and "whisper_load_model whisper (model_size self) (load_device self) = Inl e"
  shows "get_model whisper self calls =
           (Inl (RuntimeError (load_error_message self e)), self,
            calls @ [(model_size self, load_device self)]) \<and>
         transcribe py whisper self calls audio_path =
           (Inl (RuntimeError (load_error_message self e)), self,
            calls @ [(model_size self, load_device self)]) \<and>
         load_error_message self e =
           ''Error loading Whisper model (size: '' @ model_size self @ '', device: '' @
           device_text self @ ''): '' @ e @ [CHR 0x0A] @
           ''Ensure Whisper is installed and models are available (or can be downloaded).''"
  using assms by (simp add: get_model_def transcribe_def load_error_message_def)

lemma load_model_failure_wrapped_example:
  "get_model failing_whisper unloaded [] =
     (Inl (RuntimeError
        (''Error loading Whisper model (size: base, device: cuda): CUDA is not available'' @
         [CHR 0x0A] @
         ''Ensure Whisper is installed and models are available (or can be downloaded).'')),
      unloaded, [(''base'', Some ''cuda'')])"
proof -
  have h: "model unloaded = None" "whisper_import failing_whisper = None"
    "whisper_load_model failing_whisper (model_size unloaded) (load_device unloaded) =
       Inl ''CUDA is not available''"
    by (simp_all add: unloaded_def failing_whisper_def)
  have m: "model_size unloaded = ''base''" "load_device unloaded = Some ''cuda''"
    "device_text unloaded = ''cuda''"
    by (simp_all add: unloaded_def load_device_def device_text_def)
  from load_model_failure_wrapped [OF h, of "[]" plain "''a.wav''"] h m
  show ?thesis by simp
qed

text \<open>
  C9 fails on the code where the model cannot be loaded because the \<open>whisper\<close> package is
  missing. The \<open>import\<close> of line 78 stands before the \<open>try\<close> of line 80, so with no model
  supplied its exception leaves \<open>_get_model\<close>, and \<open>transcribe\<close>, as it is: the failure
  raised is not the RuntimeError of line 90, it carries neither the model size nor the
  device, and \<open>load_model\<close> is not called. The message of line 92, which asks to ensure
  that Whisper is installed, shows that this failure was meant to be wrapped as well.
\<close>

theorem import_failure_not_wrapped:
  assumes "model self = None" and "whisper_import whisper = Some msg"
  shows "get_model whisper self calls = (Inl (ImportError msg), self, calls) \<and>
         transcribe py whisper self calls audio_path = (Inl (ImportError msg), self, calls)"
  using assms by (simp add: get_model_def transcribe_def)

theorem import_failure_not_wrapped_witness:
  "model unloaded = None \<and>
   whisper_import missing_whisper = Some ''No module named whisper'' \<and>
   model_size unloaded = ''base'' \<and> device unloaded = Some ''cuda'' \<and>
   get_model missing_whisper unloaded [] =
     (Inl (ImportError ''No module named whisper''), unloaded, []) \<and>
   transcribe plain missing_whisper unloaded [] ''a.wav'' =
     (Inl (ImportError ''No module named whisper''), unloaded, [])"
proof -
  have h: "model unloaded = None"
    "whisper_import missing_whisper = Some ''No module named whisper''"
    by (simp_all add: unloaded_def missing_whisper_def)
  have m: "model_size unloaded = ''base''" "device unloaded = Some ''cuda''"
    by (simp_all add: unloaded_def)
  from import_failure_not_wrapped [OF h, of "[]" plain "''a.wav''"] h m
  show ?thesis by simp
qed

text \<open>
  C10. A word record whose \<open>word\<close> field trims to the empty string is passed over whatever
  its \<open>start\<close> and \<open>end\<close> are, present or not, numeric or not: the body of the inner loop
  raises nothing and builds no Word, the record is readable, the loop over a word list that
  contains it does what it does on the list without it, and so does \<open>transcribe\<close> on a
  result whose segment record holds that word list.
\<close>

theorem blank_word_timestamps_unread:
  assumes "py_getitem we ''word'' = Inr w" and "strip (py_str py w) = []"
  shows "word_of_entry py we = Inr None \<and> built_words py we = [] \<and> readable_word py we \<and>
         words_loop py line (pre @ we # post) = words_loop py line (pre @ post) \<and>
         transcribe_result py
           (PDict [(''segments'', PList
              (before @ PDict ((''words'', PList (pre @ we # post)) # kvs) # rest))]) =
         transcribe_result py
           (PDict [(''segments'', PList
              (before @ PDict ((''words'', PList (pre @ post)) # kvs) # rest))])"
proof -
  from assms have none: "word_of_entry py we = Inr None"
    by (simp add: word_of_entry_def)
  then have "built_words py we = []" by (simp add: built_words_def)
  moreover from none have "readable_word py we"
    using word_of_entry_returns [of py we] by simp
  moreover from none
  have loop: "words_loop py l (pre @ we # post) = words_loop py l (pre @ post)" for l
    by (simp add: words_loop_append split: sum.splits)
  moreover have "transcribe_result py
           (PDict [(''segments'', PList
              (before @ PDict ((''words'', PList (pre @ we # post)) # kvs) # rest))]) =
         transcribe_result py
           (PDict [(''segments'', PList
              (before @ PDict ((''words'', PList (pre @ post)) # kvs) # rest))])"
    using segments_loop_cong [OF segment_of_info_words_cong, of py "pre @ we # post" "pre @ post",
        OF loop]
    by (simp add: transcribe_result_def)
  ultimately show ?thesis using none by simp
qed

theorem blank_word_timestamps_unread_witness:
  "py_getitem (PDict [(''word'', PStr ''''), (''start'', PNone), (''end'', PStr ''soon'')])
     ''word'' = Inr (PStr '''') \<and>
   strip (py_str plain (PStr '''')) = [] \<and>
   word_of_entry plain
     (PDict [(''word'', PStr ''''), (''start'', PNone), (''end'', PStr ''soon'')]) = Inr None \<and>
   py_getitem (PDict [(''word'', PStr ''  '')]) ''word'' = Inr (PStr ''  '') \<and>
   strip (py_str plain (PStr ''  '')) = [] \<and>
   word_of_entry plain (PDict [(''word'', PStr ''  '')]) = Inr None \<and>
   transcribe_result plain blank_words =
     Inr \<lparr>segments =
       [\<lparr>s_time = \<lparr>tf_start = 0, tf_end = 2\<rparr>,
         lines = [\<lparr>l_time = \<lparr>tf_start = 0, tf_end = 2\<rparr>,
           words = [\<lparr>w_text = ''a'', w_time = \<lparr>tf_start = 0, tf_end = 2\<rparr>\<rparr>]\<rparr>]\<rparr>]\<rparr>"
proof -
  have a: "py_getitem (PDict [(''word'', PStr ''''), (''start'', PNone), (''end'', PStr ''soon'')])
     ''word'' = Inr (PStr '''')" "strip (py_str plain (PStr '''')) = []"
    by (simp_all add: strip_def)
  have b: "py_getitem (PDict [(''word'', PStr ''  '')]) ''word'' = Inr (PStr ''  '')"
    "strip (py_str plain (PStr ''  '')) = []"
    by (simp_all add: strip_def isspace_def)
  have run: "transcribe_result plain blank_words =
     Inr \<lparr>segments =
       [\<lparr>s_time = \<lparr>tf_start = 0, tf_end = 2\<rparr>,
         lines = [\<lparr>l_time = \<lparr>tf_start = 0, tf_end = 2\<rparr>,
           words = [\<lparr>w_text = ''a'', w_time = \<lparr>tf_start = 0, tf_end = 2\<rparr>\<rparr>]\<rparr>]\<rparr>]\<rparr>"
    by (simp add: blank_words_def eval_defs)
  from blank_word_timestamps_unread [OF a] blank_word_timestamps_unread [OF b] a b run
  show ?thesis by simp
qed

end
